theory Spec2Isabelle
  imports Complex_Main "HOL-Library.AList" "HOL-Library.Char_ord" "HOL-Library.List_Lexorder"
begin

section \<open>Data model\<close>

text \<open>
  The script \<^verbatim>\<open>lab2.2.py\<close> works on one pandas DataFrame. A value of a cell is a
  number, a text or null (\<^verbatim>\<open>None\<close>/\<^verbatim>\<open>NaN\<close>, what \<^verbatim>\<open>pd.isnull\<close> accepts). Numbers are
  modelled as exact reals: an integer and a float that Python's \<^verbatim>\<open>==\<close> identifies are the
  same cell, so equality of cells is Python's equality of values. The result of a
  statistic is a cell as well, \<open>Null\<close> standing for \<^verbatim>\<open>nan\<close>.
\<close>

datatype cell = Null | Num real | Str string

datatype dtype = Int64 | Float64 | Bool | Datetime64 | Object | Category

record column =
  dtype :: dtype
  vals :: "cell list"

record dataframe =
  nrows :: nat
  cols :: "(string \<times> column) list"

text \<open>A well-formed frame: column names are distinct and every column has one value per row.\<close>

definition wf_df :: "dataframe \<Rightarrow> bool" where
  "wf_df df = (distinct (map fst (cols df)) \<and>
               list_all (\<lambda>(n, c). length (vals c) = nrows df) (cols df))"

section \<open>Effects: console output, exceptions, the shared dataset\<close>

text \<open>
  \<open>SystemExit\<close> is what \<^verbatim>\<open>exit()\<close> raises and \<open>KeyboardInterrupt\<close> stands for the other
  exceptions outside the class \<^verbatim>\<open>Exception\<close>: a handler \<^verbatim>\<open>except Exception\<close> catches
  neither.
\<close>

datatype exn =
  KeyError string | TypeError | ValueError | IndexError
| OperationalError string | SystemExit | KeyboardInterrupt

fun is_Exception :: "exn \<Rightarrow> bool" where
  "is_Exception SystemExit = False"
| "is_Exception KeyboardInterrupt = False"
| "is_Exception _ = True"

text \<open>One constructor for each \<^verbatim>\<open>print\<close> (or plot) of the script, with the values it shows.\<close>

datatype line =
  ConnectOK | ConnectError exn | LoadOK | QueryError exn
| NumHeader string | MissingShare cell | Maximum cell | Minimum cell | Mean cell
| Median cell | Variance cell | Quantile01 cell | Quantile09 cell | Quartile1 cell
| Quartile3 cell | NumError string exn
| CatHeader string | UniqueCount nat | ModeLine "cell option"
| EncHeader string | EncHead "cell list" | EncCategories "cell list"
| Shape nat nat
| Hyp1Header | AnovaResult cell cell | Reject1 | FailReject1
| Hyp2Header | TTestResult cell cell | Reject2 | FailReject2
| CorrHeader | CorrTable "(string \<times> cell) list"
| Heatmap "(string \<times> (string \<times> cell) list) list"

text \<open>
  The world: what has been printed so far, and the dataset object that every stage
  receives by reference as its parameter \<^verbatim>\<open>df\<close>.
\<close>

record world =
  out :: "line list"
  ds :: dataframe

datatype 'a res = Return 'a | Raise exn

type_synonym 'a prog = "world \<Rightarrow> 'a res \<times> world"

definition unit_p :: "'a \<Rightarrow> 'a prog" where
  "unit_p x s = (Return x, s)"

definition raise_p :: "exn \<Rightarrow> 'a prog" where
  "raise_p e s = (Raise e, s)"

definition bind_p :: "'a prog \<Rightarrow> ('a \<Rightarrow> 'b prog) \<Rightarrow> 'b prog" where
  "bind_p m f s = (case m s of (Return x, s') \<Rightarrow> f x s' | (Raise e, s') \<Rightarrow> (Raise e, s'))"

definition print_p :: "line \<Rightarrow> unit prog" where
  "print_p l s = (Return (), s\<lparr>out := out s @ [l]\<rparr>)"

definition lift :: "exn + 'a \<Rightarrow> 'a prog" where
  "lift r = (case r of Inl e \<Rightarrow> raise_p e | Inr x \<Rightarrow> unit_p x)"

text \<open>Statements one after the other; the first exception ends the block.\<close>

fun block :: "unit prog list \<Rightarrow> unit prog" where
  "block [] = unit_p ()"
| "block (m # ms) = bind_p m (\<lambda>_. block ms)"

text \<open>\<^verbatim>\<open>for x in xs: body\<close>.\<close>

fun for_each :: "'a list \<Rightarrow> ('a \<Rightarrow> unit prog) \<Rightarrow> unit prog" where
  "for_each [] body = unit_p ()"
| "for_each (x # xs) body = bind_p (body x) (\<lambda>_. for_each xs body)"

text \<open>\<^verbatim>\<open>try: body  except Exception as e: handler\<close>.\<close>

definition try_except :: "'a prog \<Rightarrow> (exn \<Rightarrow> 'a prog) \<Rightarrow> 'a prog" where
  "try_except body handler s =
     (case body s of
        (Return x, s') \<Rightarrow> (Return x, s')
      | (Raise e, s') \<Rightarrow> (if is_Exception e then handler e s' else (Raise e, s')))"

text \<open>\<^verbatim>\<open>df[col]\<close> reads a column (\<^verbatim>\<open>KeyError\<close> when there is none of that name);
  \<^verbatim>\<open>df[col] = c\<close> replaces it in place.\<close>

definition getitem :: "string \<Rightarrow> column prog" where
  "getitem col s = (case map_of (cols (ds s)) col of
                      None \<Rightarrow> (Raise (KeyError col), s)
                    | Some c \<Rightarrow> (Return c, s))"

definition setitem :: "string \<Rightarrow> column \<Rightarrow> unit prog" where
  "setitem col c s =
     (Return (), s\<lparr>ds := (ds s)\<lparr>cols := AList.update col c (cols (ds s))\<rparr>\<rparr>)"

text \<open>\<^verbatim>\<open>df.select_dtypes(include=...).columns\<close>: the names of the columns of these storage
  types, in the frame's order.\<close>

definition select_dtypes :: "dtype list \<Rightarrow> dataframe \<Rightarrow> string list" where
  "select_dtypes include df = map fst (filter (\<lambda>(n, c). dtype c \<in> set include) (cols df))"

section \<open>The Encoder\<close>

text \<open>
  \<^verbatim>\<open>pd.factorize\<close> (pandas, with its defaults): one pass over the values with a table
  of the values seen so far; a value gets the position of its first appearance, a null
  gets the sentinel \<open>-1\<close> and never enters the table. It returns the codes and the
  table, the labels in first-seen order.
\<close>

primrec position :: "'a \<Rightarrow> 'a list \<Rightarrow> nat option" where
  "position v [] = None"
| "position v (u # us) = (if u = v then Some 0 else map_option Suc (position v us))"

fun factorize_from :: "cell list \<Rightarrow> cell list \<Rightarrow> int list \<times> cell list" where
  "factorize_from us [] = ([], us)"
| "factorize_from us (v # vs) =
     (if v = Null then
        (let (cs, us') = factorize_from us vs in ((- 1) # cs, us'))
      else
        (case position v us of
           Some k \<Rightarrow> (let (cs, us') = factorize_from us vs in (int k # cs, us'))
         | None \<Rightarrow>
             (let (cs, us') = factorize_from (us @ [v]) vs in (int (length us) # cs, us'))))"

definition factorize :: "cell list \<Rightarrow> int list \<times> cell list" where
  "factorize vs = factorize_from [] vs"

text \<open>The codes as a column of the frame: an integer column.\<close>

definition codes_column :: "int list \<Rightarrow> column" where
  "codes_column cs = \<lparr>dtype = Int64, vals = map (\<lambda>k. Num (of_int k)) cs\<rparr>"

text \<open>
  \<^verbatim>\<open>
  def encode_categorical_variables(df):
      categorical_columns = df.select_dtypes(include=['object', 'category']).columns
      for col in categorical_columns:
          df[col], unique_values = pd.factorize(df[col])
          print(f"\n... '{col}' ...")
          print(df[col].head())
          print(f"...: {list(unique_values[:5])} ...")
      return df
  \<close>
\<close>

definition encode_column :: "string \<Rightarrow> unit prog" where
  "encode_column col =
     bind_p (getitem col) (\<lambda>c.
       (case factorize (vals c) of (codes, unique_values) \<Rightarrow>
          block
            [ setitem col (codes_column codes),
              print_p (EncHeader col),
              bind_p (getitem col) (\<lambda>c'. print_p (EncHead (take 5 (vals c')))),
              print_p (EncCategories (take 5 unique_values)) ]))"

definition encode_categorical_variables :: "dataframe prog" where
  "encode_categorical_variables =
     (\<lambda>s. bind_p (for_each (select_dtypes [Object, Category] (ds s)) encode_column)
             (\<lambda>_ s'. (Return (ds s'), s')) s)"

text \<open>What the Encoder makes of one categorical column.\<close>

definition encode_col :: "column \<Rightarrow> column" where
  "encode_col c = codes_column (fst (factorize (vals c)))"


section \<open>The library functions the script is given\<close>

text \<open>
  What the database driver and the statistical tests answer is not the script's: they
  are parameters. Each returns its result or the exception it raises. A test returns the
  pair of the statistic and the p-value.

  The same holds of the arithmetic of pandas. It computes the mean, the median, the
  sample variance and the quantiles of a column, and Pearson's coefficient of two columns,
  in 64-bit floating point; these computations are parameters too: \<open>fl_mean\<close>,
  \<open>fl_median\<close>, \<open>fl_var\<close> and \<open>fl_quantile q\<close> are given the non-null numbers of a
  column that has some, \<open>fl_corr\<close> the pairs of numbers of the rows where two columns
  both have one. What surrounds the arithmetic is modelled: which values reach it, the
  \<^verbatim>\<open>nan\<close> where no value does, the exceptions, the formatting. A result is a cell, a
  finite number or \<^verbatim>\<open>nan\<close>; an overflow to an infinity has no cell and is not covered.
\<close>

datatype engine = Engine string

record libs =
  create_engine :: "string \<Rightarrow> exn + engine"
  read_sql_query :: "string \<Rightarrow> engine \<Rightarrow> exn + dataframe"
  f_oneway :: "cell list list \<Rightarrow> exn + (cell \<times> cell)"
  ttest_ind :: "cell list \<Rightarrow> cell list \<Rightarrow> bool \<Rightarrow> exn + (cell \<times> cell)"
  fl_mean :: "real list \<Rightarrow> cell"
  fl_median :: "real list \<Rightarrow> cell"
  fl_var :: "real list \<Rightarrow> cell"
  fl_quantile :: "real \<Rightarrow> real list \<Rightarrow> cell"
  fl_corr :: "(real \<times> real) list \<Rightarrow> cell"

section \<open>Column statistics\<close>

text \<open>
  The pandas Series methods the profilers call, on the values of one column. They skip
  nulls. On a column with no non-null value they return \<^verbatim>\<open>nan\<close>; the numeric ones raise
  \<^verbatim>\<open>TypeError\<close> on a column that holds a text. A number of a cell is the exact value of
  the integer or the double it stands for; the minimum and the maximum are such values
  themselves, everything else that is computed from them is the library's arithmetic.
\<close>

definition dropna :: "cell list \<Rightarrow> cell list" where
  "dropna vs = filter (\<lambda>v. v \<noteq> Null) vs"

fun num_of :: "cell \<Rightarrow> real option" where
  "num_of (Num x) = Some x"
| "num_of _ = None"

fun str_of :: "cell \<Rightarrow> string option" where
  "str_of (Str t) = Some t"
| "str_of _ = None"

text \<open>The non-null values, when all of them are numbers.\<close>

definition numbers :: "cell list \<Rightarrow> real list option" where
  "numbers vs = (if list_all (\<lambda>v. num_of v \<noteq> None) (dropna vs)
                 then Some (List.map_filter num_of vs) else None)"

text \<open>The values, when all of them are texts and none is null.\<close>

definition texts :: "cell list \<Rightarrow> string list option" where
  "texts vs = (if list_all (\<lambda>v. str_of v \<noteq> None) vs
               then Some (List.map_filter str_of vs) else None)"

text \<open>\<^verbatim>\<open>s.isnull().mean()\<close>: the share of nulls (\<^verbatim>\<open>nan\<close> for a column of no rows). It is
  the exact quotient of the two counts here, where pandas has the double next to it: the
  four decimals shown differ only if the quotient lies on a rounding boundary, and no
  property below depends on them.\<close>

definition isnull_mean :: "cell list \<Rightarrow> cell" where
  "isnull_mean vs = (if vs = [] then Null
                     else Num (real (length (filter (\<lambda>v. v = Null) vs)) / real (length vs)))"

text \<open>
  \<^verbatim>\<open>s.max()\<close> and \<^verbatim>\<open>s.min()\<close>. On texts pandas compares them as Python does, and fails
  with \<^verbatim>\<open>TypeError\<close> when a null or a number stands among them.
\<close>

definition col_max :: "cell list \<Rightarrow> exn + cell" where
  "col_max vs =
     (case numbers vs of
        Some xs \<Rightarrow> Inr (if xs = [] then Null else Num (Max (set xs)))
      | None \<Rightarrow> (case texts vs of
                   Some ts \<Rightarrow> Inr (Str (Max (set ts)))
                 | None \<Rightarrow> Inl TypeError))"

definition col_min :: "cell list \<Rightarrow> exn + cell" where
  "col_min vs =
     (case numbers vs of
        Some xs \<Rightarrow> Inr (if xs = [] then Null else Num (Min (set xs)))
      | None \<Rightarrow> (case texts vs of
                   Some ts \<Rightarrow> Inr (Str (Min (set ts)))
                 | None \<Rightarrow> Inl TypeError))"

text \<open>
  A statistic of the non-null numbers: \<^verbatim>\<open>TypeError\<close> when a text stands among the values,
  \<^verbatim>\<open>nan\<close> when there is no number, else what the library computes.
\<close>

definition stat :: "(real list \<Rightarrow> cell) \<Rightarrow> cell list \<Rightarrow> exn + cell" where
  "stat f vs = (case numbers vs of
                  None \<Rightarrow> Inl TypeError
                | Some xs \<Rightarrow> Inr (if xs = [] then Null else f xs))"

definition col_mean :: "libs \<Rightarrow> cell list \<Rightarrow> exn + cell" where
  "col_mean lib = stat (fl_mean lib)"

definition col_median :: "libs \<Rightarrow> cell list \<Rightarrow> exn + cell" where
  "col_median lib = stat (fl_median lib)"

definition col_var :: "libs \<Rightarrow> cell list \<Rightarrow> exn + cell" where
  "col_var lib = stat (fl_var lib)"

text \<open>\<^verbatim>\<open>s.quantile(q)\<close>; pandas refuses a column of storage type \<^verbatim>\<open>bool\<close>
  (\<^verbatim>\<open>TypeError\<close>).\<close>

definition col_quantile :: "libs \<Rightarrow> real \<Rightarrow> column \<Rightarrow> exn + cell" where
  "col_quantile lib q c =
     (if dtype c = Bool then Inl TypeError else stat (fl_quantile lib q) (vals c))"

text \<open>
  Formatting. \<^verbatim>\<open>{x:.4f}\<close> shows \<open>x\<close> rounded to four decimals, to the nearest and a tie
  to the even digit; \<^verbatim>\<open>nan\<close> is shown as it is and a text is refused (\<^verbatim>\<open>ValueError\<close>).
  \<^verbatim>\<open>{x:.4%}\<close> shows \<open>100 * x\<close> the same way. A line of the output carries the number
  shown.
\<close>

definition round_half_even :: "real \<Rightarrow> int" where
  "round_half_even y =
     (let f = \<lfloor>y\<rfloor>; d = y - of_int f
      in if d < 1 / 2 then f else if 1 / 2 < d then f + 1 else if even f then f else f + 1)"

definition round4 :: "real \<Rightarrow> real" where
  "round4 x = of_int (round_half_even (x * 10000)) / 10000"

fun fmt4 :: "cell \<Rightarrow> exn + cell" where
  "fmt4 Null = Inr Null"
| "fmt4 (Num x) = Inr (Num (round4 x))"
| "fmt4 (Str t) = Inl ValueError"

fun fmt_pct :: "cell \<Rightarrow> exn + cell" where
  "fmt_pct Null = Inr Null"
| "fmt_pct (Num x) = Inr (Num (round4 (100 * x)))"
| "fmt_pct (Str t) = Inl ValueError"

text \<open>\<^verbatim>\<open>s.nunique()\<close>: the number of distinct non-null values.\<close>

definition nunique :: "cell list \<Rightarrow> nat" where
  "nunique vs = length (remdups (dropna vs))"

text \<open>
  \<^verbatim>\<open>s.unique()\<close>: the distinct values in the order of their first appearance, a null
  among them when the column has one.
\<close>

fun unique_from :: "cell list \<Rightarrow> cell list \<Rightarrow> cell list" where
  "unique_from seen [] = seen"
| "unique_from seen (v # vs) =
     (if v \<in> set seen then unique_from seen vs else unique_from (seen @ [v]) vs)"

definition unique :: "cell list \<Rightarrow> cell list" where
  "unique vs = unique_from [] vs"

text \<open>
  \<^verbatim>\<open>s.mode()\<close>: the non-null values that occur most often, sorted. pandas sorts them
  with its sort for mixed values: the numbers by value, then the texts as Python orders
  strings.
\<close>

definition sort_cells :: "cell list \<Rightarrow> cell list" where
  "sort_cells vs =
     map Num (sort (List.map_filter num_of vs)) @ map Str (sort (List.map_filter str_of vs))"

definition most_frequent :: "cell list \<Rightarrow> cell list" where
  "most_frequent vs =
     (let xs = dropna vs; us = unique xs
      in filter (\<lambda>v. \<forall>u \<in> set us. count_list xs u \<le> count_list xs v) us)"

definition mode_series :: "cell list \<Rightarrow> cell list" where
  "mode_series vs = sort_cells (most_frequent vs)"

section \<open>The profilers\<close>

text \<open>A statistic printed with \<^verbatim>\<open>:.4f\<close>.\<close>

definition show4 :: "(exn + cell) \<Rightarrow> (cell \<Rightarrow> line) \<Rightarrow> unit prog" where
  "show4 r mk = bind_p (lift r) (\<lambda>v. bind_p (lift (fmt4 v)) (\<lambda>w. print_p (mk w)))"

text \<open>
  The body of the loop of \<^verbatim>\<open>exploratory_analysis_numeric\<close>, the statements under
  \<^verbatim>\<open>try\<close>: a header, then ten prints, each reading \<^verbatim>\<open>df[col]\<close> and one statistic.
\<close>

definition numeric_column :: "libs \<Rightarrow> string \<Rightarrow> unit prog" where
  "numeric_column lib col =
     block
       [ print_p (NumHeader col),
         bind_p (getitem col) (\<lambda>c.
           bind_p (lift (fmt_pct (isnull_mean (vals c)))) (\<lambda>w. print_p (MissingShare w))),
         bind_p (getitem col) (\<lambda>c. bind_p (lift (col_max (vals c))) (\<lambda>v. print_p (Maximum v))),
         bind_p (getitem col) (\<lambda>c. bind_p (lift (col_min (vals c))) (\<lambda>v. print_p (Minimum v))),
         bind_p (getitem col) (\<lambda>c. show4 (col_mean lib (vals c)) Mean),
         bind_p (getitem col) (\<lambda>c. show4 (col_median lib (vals c)) Median),
         bind_p (getitem col) (\<lambda>c. show4 (col_var lib (vals c)) Variance),
         bind_p (getitem col) (\<lambda>c. show4 (col_quantile lib (1 / 10) c) Quantile01),
         bind_p (getitem col) (\<lambda>c. show4 (col_quantile lib (9 / 10) c) Quantile09),
         bind_p (getitem col) (\<lambda>c. show4 (col_quantile lib (1 / 4) c) Quartile1),
         bind_p (getitem col) (\<lambda>c. show4 (col_quantile lib (3 / 4) c) Quartile3) ]"

text \<open>
  \<^verbatim>\<open>
  def exploratory_analysis_numeric(df, columns):
      for col in columns:
          try:
              ...
          except Exception as e:
              print(f"... {col}: {e}")
  \<close>
\<close>

definition exploratory_analysis_numeric :: "libs \<Rightarrow> string list \<Rightarrow> unit prog" where
  "exploratory_analysis_numeric lib columns =
     for_each columns
       (\<lambda>col. try_except (numeric_column lib col) (\<lambda>e. print_p (NumError col e)))"

text \<open>
  The body of the loop of \<^verbatim>\<open>exploratory_analysis_categorical\<close>; the mode is
  \<^verbatim>\<open>df[col].mode()[0] if not df[col].mode().empty else '...'\<close>.
\<close>

definition categorical_column :: "string \<Rightarrow> unit prog" where
  "categorical_column col =
     block
       [ print_p (CatHeader col),
         bind_p (getitem col) (\<lambda>c.
           bind_p (lift (fmt_pct (isnull_mean (vals c)))) (\<lambda>w. print_p (MissingShare w))),
         bind_p (getitem col) (\<lambda>c. print_p (UniqueCount (nunique (vals c)))),
         bind_p (getitem col) (\<lambda>c.
           print_p (ModeLine (case mode_series (vals c) of [] \<Rightarrow> None | m # _ \<Rightarrow> Some m))) ]"

definition exploratory_analysis_categorical :: "string list \<Rightarrow> unit prog" where
  "exploratory_analysis_categorical columns = for_each columns categorical_column"


text \<open>
  What the claims about the mode speak of. A value is a most frequent one when it is a
  non-null value of the column and no non-null value occurs more often. The sort order
  of the mode series is \<open>sort_le\<close>: numbers by value, texts as strings, and a number
  before a text.
\<close>

definition is_most_frequent :: "cell \<Rightarrow> cell list \<Rightarrow> bool" where
  "is_most_frequent v vs =
     (v \<noteq> Null \<and> v \<in> set vs \<and> (\<forall>u \<in> set vs. u \<noteq> Null \<longrightarrow> count_list vs u \<le> count_list vs v))"

fun sort_le :: "cell \<Rightarrow> cell \<Rightarrow> bool" where
  "sort_le (Num a) (Num b) = (a \<le> b)"
| "sort_le (Str a) (Str b) = (a \<le> b)"
| "sort_le (Num a) (Str b) = True"
| "sort_le _ _ = False"


text \<open>The lines the Numeric Profiler prints for one column, a failure's line included.\<close>

definition numeric_report :: "libs \<Rightarrow> dataframe \<Rightarrow> string \<Rightarrow> line list" where
  "numeric_report lib df col =
     out (snd (try_except (numeric_column lib col) (\<lambda>e. print_p (NumError col e))
                 \<lparr>out = [], ds = df\<rparr>))"




section \<open>Two properties of programs\<close>

text \<open>
  A program is uniform when it leaves the dataset alone and only appends to the output,
  and what it appends and returns does not depend on what was printed before.
\<close>

definition uniform :: "'a prog \<Rightarrow> bool" where
  "uniform m = (\<forall>s. m s = (fst (m (s\<lparr>out := []\<rparr>)),
                           s\<lparr>out := out s @ out (snd (m (s\<lparr>out := []\<rparr>)))\<rparr>))"

text \<open>A program is mild when every exception it raises is of the class \<^verbatim>\<open>Exception\<close>.\<close>

definition mild :: "'a prog \<Rightarrow> bool" where
  "mild m = (\<forall>s e. fst (m s) = Raise e \<longrightarrow> is_Exception e)"

text \<open>
  Codes in the order of first appearance, in the words of the specification: the code of
  a value is the number of distinct non-null values that stand before its first
  appearance in the column, so the first value seen gets 0, the next new one 1, and so
  on; a null gets \<open>-1\<close>.
\<close>

definition first_seen_rank :: "cell list \<Rightarrow> cell \<Rightarrow> nat" where
  "first_seen_rank vs v = length (remdups (dropna (takeWhile (\<lambda>u. u \<noteq> v) vs)))"

definition first_seen_code :: "cell list \<Rightarrow> cell \<Rightarrow> cell" where
  "first_seen_code vs v = (if v = Null then Num (- 1) else Num (real (first_seen_rank vs v)))"

section \<open>Connector and Loader\<close>

fun str_nat :: "nat \<Rightarrow> string" where
  "str_nat n = (if n < 10 then [char_of (48 + n)]
                else str_nat (n div 10) @ [char_of (48 + n mod 10)])"

definition db_url :: "string \<Rightarrow> nat \<Rightarrow> string \<Rightarrow> string \<Rightarrow> string \<Rightarrow> string" where
  "db_url host port user password database =
     ''postgresql://'' @ user @ '':'' @ password @ ''@'' @ host @ '':'' @ str_nat port @
     ''/'' @ database @ ''?client_encoding=utf8''"

text \<open>
  \<^verbatim>\<open>
  def connect_to_db(host, port, user, password, database):
      try:
          engine = create_engine(f"postgresql://...")
          print("...")
          return engine
      except Exception as e:
          print("...:", e)
          exit()
  \<close>
  \<^verbatim>\<open>exit()\<close> raises \<^verbatim>\<open>SystemExit\<close>.
\<close>

definition connect_to_db ::
    "libs \<Rightarrow> string \<Rightarrow> nat \<Rightarrow> string \<Rightarrow> string \<Rightarrow> string \<Rightarrow> engine prog" where
  "connect_to_db lib host port user password database =
     try_except
       (bind_p (lift (create_engine lib (db_url host port user password database))) (\<lambda>engine.
          bind_p (print_p ConnectOK) (\<lambda>_. unit_p engine)))
       (\<lambda>e. bind_p (print_p (ConnectError e)) (\<lambda>_. raise_p SystemExit))"

text \<open>
  \<^verbatim>\<open>
  def load_data(engine, query):
      try:
          df = pd.read_sql_query(query, engine)
          print("...")
          return df
      except Exception as e:
          print("...:", e)
          exit()
  \<close>
\<close>

definition load_data :: "libs \<Rightarrow> engine \<Rightarrow> string \<Rightarrow> dataframe prog" where
  "load_data lib engine query =
     try_except
       (bind_p (lift (read_sql_query lib query engine)) (\<lambda>df.
          bind_p (print_p LoadOK) (\<lambda>_. unit_p df)))
       (\<lambda>e. bind_p (print_p (QueryError e)) (\<lambda>_. raise_p SystemExit))"

section \<open>Shape reporter\<close>

text \<open>The frame behind the reference \<^verbatim>\<open>df\<close>.\<close>

definition get_frame :: "dataframe prog" where
  "get_frame s = (Return (ds s), s)"

text \<open>\<^verbatim>\<open>rows, columns = df.shape\<close>, then one print.\<close>

definition analyze_dataset :: "unit prog" where
  "analyze_dataset = bind_p get_frame (\<lambda>df. print_p (Shape (nrows df) (length (cols df))))"

section \<open>Hypothesis tester\<close>

text \<open>A column of a frame that is a value: \<^verbatim>\<open>frame[col]\<close>.\<close>

definition column_of :: "dataframe \<Rightarrow> string \<Rightarrow> exn + column" where
  "column_of df col = (case map_of (cols df) col of
                         None \<Rightarrow> Inl (KeyError col)
                       | Some c \<Rightarrow> Inr c)"

text \<open>
  \<^verbatim>\<open>s == value\<close>, row by row: a null equals nothing. \<^verbatim>\<open>df[mask]\<close> is a new frame with the
  rows where the mask holds.
\<close>

definition mask_eq :: "cell list \<Rightarrow> cell \<Rightarrow> bool list" where
  "mask_eq vs value = map (\<lambda>v. v \<noteq> Null \<and> v = value) vs"

definition keep :: "bool list \<Rightarrow> 'a list \<Rightarrow> 'a list" where
  "keep picked xs = map snd (filter fst (zip picked xs))"

definition select_rows :: "bool list \<Rightarrow> dataframe \<Rightarrow> dataframe" where
  "select_rows picked df =
     \<lparr>nrows = length (filter id picked),
      cols = map (\<lambda>(n, c). (n, c\<lparr>vals := keep picked (vals c)\<rparr>)) (cols df)\<rparr>"

text \<open>\<^verbatim>\<open>df[df[key] == value][target].dropna()\<close>, the expression of all three groups.\<close>

definition where_eq :: "string \<Rightarrow> cell \<Rightarrow> string \<Rightarrow> cell list prog" where
  "where_eq key value target =
     bind_p (getitem key) (\<lambda>k.
       bind_p get_frame (\<lambda>df.
         bind_p (lift (column_of (select_rows (mask_eq (vals k) value) df) target)) (\<lambda>c.
           unit_p (dropna (vals c)))))"

text \<open>A list comprehension: the elements one after the other.\<close>

fun map_p :: "('a \<Rightarrow> 'b prog) \<Rightarrow> 'a list \<Rightarrow> 'b list prog" where
  "map_p f [] = unit_p []"
| "map_p f (x # xs) = bind_p (f x) (\<lambda>y. bind_p (map_p f xs) (\<lambda>ys. unit_p (y # ys)))"

text \<open>
  \<^verbatim>\<open>p_value < 0.05\<close>: false on \<^verbatim>\<open>nan\<close>. \<^verbatim>\<open>{p_value:.4e}\<close> shows the number in scientific
  notation; the line carries the number itself.
\<close>

fun py_less :: "cell \<Rightarrow> real \<Rightarrow> exn + bool" where
  "py_less (Num x) r = Inr (x < r)"
| "py_less Null r = Inr False"
| "py_less (Str t) r = Inl TypeError"

fun fmt_e :: "cell \<Rightarrow> exn + cell" where
  "fmt_e (Str t) = Inl ValueError"
| "fmt_e v = Inr v"

text \<open>
  Lines 70 to 77 of the script, Test A:
  \<^verbatim>\<open>
  print("...")
  groups = [df[df['landuse'] == value]['saleprice'].dropna()
            for value in df['landuse'].unique() if not pd.isnull(value)]
  stat, p_value = f_oneway(*groups)
  print(f"... {stat:.4f}, ... {p_value:.4e}")
  if p_value < 0.05: print("...")
  else: print("...")
  \<close>
\<close>

definition hypothesis_1 :: "libs \<Rightarrow> unit prog" where
  "hypothesis_1 lib =
     bind_p (print_p Hyp1Header) (\<lambda>_.
     bind_p (getitem ''landuse'') (\<lambda>lu.
     bind_p (map_p (\<lambda>value. where_eq ''landuse'' value ''saleprice'')
                (filter (\<lambda>value. value \<noteq> Null) (unique (vals lu)))) (\<lambda>groups.
     bind_p (lift (f_oneway lib groups)) (\<lambda>(stat, p_value).
     bind_p (lift (fmt4 stat)) (\<lambda>shown_stat.
     bind_p (lift (fmt_e p_value)) (\<lambda>shown_p.
     bind_p (print_p (AnovaResult shown_stat shown_p)) (\<lambda>_.
     bind_p (lift (py_less p_value (5 / 100))) (\<lambda>below.
       if below then print_p Reject1 else print_p FailReject1))))))))"

text \<open>
  Lines 79 to 87, Test B:
  \<^verbatim>\<open>
  print("...")
  vacant = df[df['soldasvacant'] == 1]['acreage'].dropna()
  non_vacant = df[df['soldasvacant'] == 0]['acreage'].dropna()
  stat, p_value = ttest_ind(vacant, non_vacant, equal_var=False)
  print(f"... {stat:.4f}, ... {p_value:.4e}")
  if p_value < 0.05: print("...")
  else: print("...")
  \<close>
\<close>

definition hypothesis_2 :: "libs \<Rightarrow> unit prog" where
  "hypothesis_2 lib =
     bind_p (print_p Hyp2Header) (\<lambda>_.
     bind_p (where_eq ''soldasvacant'' (Num 1) ''acreage'') (\<lambda>vacant.
     bind_p (where_eq ''soldasvacant'' (Num 0) ''acreage'') (\<lambda>non_vacant.
     bind_p (lift (ttest_ind lib vacant non_vacant False)) (\<lambda>(stat, p_value).
     bind_p (lift (fmt4 stat)) (\<lambda>shown_stat.
     bind_p (lift (fmt_e p_value)) (\<lambda>shown_p.
     bind_p (print_p (TTestResult shown_stat shown_p)) (\<lambda>_.
     bind_p (lift (py_less p_value (5 / 100))) (\<lambda>below.
       if below then print_p Reject2 else print_p FailReject2))))))))"

definition test_hypotheses :: "libs \<Rightarrow> unit prog" where
  "test_hypotheses lib = bind_p (hypothesis_1 lib) (\<lambda>_. hypothesis_2 lib)"

section \<open>Correlation reporter\<close>

text \<open>
  \<^verbatim>\<open>DataFrame.corr()\<close>: Pearson's coefficient of every pair of columns, over the rows
  where both have a value. With no such row the entry is \<^verbatim>\<open>nan\<close>; otherwise it is what
  the library's arithmetic makes of the pairs.
\<close>

definition both :: "cell list \<Rightarrow> cell list \<Rightarrow> (real \<times> real) list" where
  "both xs ys =
     List.map_filter
       (\<lambda>(u, v). case (num_of u, num_of v) of (Some a, Some b) \<Rightarrow> Some (a, b) | _ \<Rightarrow> None)
       (zip xs ys)"

definition coefficient :: "libs \<Rightarrow> cell list \<Rightarrow> cell list \<Rightarrow> cell" where
  "coefficient lib xs ys = (let ps = both xs ys in if ps = [] then Null else fl_corr lib ps)"

text \<open>
  The matrix, column by column: under a column's name, the coefficient with every
  column. pandas computes the coefficient of two columns once, from the values of the
  one that stands later in the frame paired with those of the other, and enters it on
  both sides of the diagonal.
\<close>

definition entry :: "libs \<Rightarrow> (string \<times> column) list \<Rightarrow> nat \<Rightarrow> nat \<Rightarrow> cell" where
  "entry lib cs i j =
     coefficient lib (vals (snd (cs ! max i j))) (vals (snd (cs ! min i j)))"

definition corr ::
    "libs \<Rightarrow> (string \<times> column) list \<Rightarrow> (string \<times> (string \<times> cell) list) list" where
  "corr lib cs =
     map (\<lambda>i. (fst (cs ! i), map (\<lambda>j. (fst (cs ! j), entry lib cs i j)) [0..<length cs]))
         [0..<length cs]"

definition matrix_column ::
    "(string \<times> (string \<times> cell) list) list \<Rightarrow> string \<Rightarrow> exn + (string \<times> cell) list" where
  "matrix_column m col = (case map_of m col of
                            None \<Rightarrow> Inl (KeyError col)
                          | Some series \<Rightarrow> Inr series)"

text \<open>
  \<^verbatim>\<open>sort_values(ascending=False)\<close>: the entries with a value by falling value, then the
  \<^verbatim>\<open>nan\<close> entries. pandas promises no order among entries of equal value; they are
  kept here in the order they had, which is what its sort does with a short table.
\<close>

fun the_num :: "cell \<Rightarrow> real" where
  "the_num (Num x) = x"
| "the_num _ = 0"

definition sort_values_desc :: "(string \<times> cell) list \<Rightarrow> (string \<times> cell) list" where
  "sort_values_desc series =
     sort_key (\<lambda>(n, v). - the_num v) (filter (\<lambda>(n, v). num_of v \<noteq> None) series) @
     filter (\<lambda>(n, v). num_of v = None) series"

text \<open>
  \<^verbatim>\<open>
  def correlation_table(df, target_column):
      numeric_columns = df.select_dtypes(include=['float64', 'int64']).columns
      correlation = df[numeric_columns].corr()[target_column].sort_values(ascending=False)
      print("...")
      print(correlation)
      plt.figure(figsize=(10, 8))
      sns.heatmap(df[numeric_columns].corr(), annot=True, cmap="coolwarm", fmt=".2f")
      plt.title("...")
      plt.show()
  \<close>
  The plot is one line of the output, with the matrix it shows.
\<close>

definition numeric_part :: "dataframe \<Rightarrow> (string \<times> column) list" where
  "numeric_part df = filter (\<lambda>(n, c). n \<in> set (select_dtypes [Float64, Int64] df)) (cols df)"

definition correlation_table :: "libs \<Rightarrow> string \<Rightarrow> unit prog" where
  "correlation_table lib target_column =
     bind_p get_frame (\<lambda>df.
     bind_p (lift (matrix_column (corr lib (numeric_part df)) target_column)) (\<lambda>series.
       block
         [ print_p CorrHeader,
           print_p (CorrTable (sort_values_desc series)),
           print_p (Heatmap (corr lib (numeric_part df))) ]))"

section \<open>The script\<close>

text \<open>The frame just loaded is, from here on, the dataset object \<^verbatim>\<open>df\<close>.\<close>

definition put_frame :: "dataframe \<Rightarrow> unit prog" where
  "put_frame df s = (Return (), s\<lparr>ds := df\<rparr>)"

text \<open>
  The main block, with its literals as parameters:
  \<^verbatim>\<open>
  engine = connect_to_db(host, port, user, password, database)
  df = load_data(engine, query)
  df = encode_categorical_variables(df)
  analyze_dataset(df)
  test_hypotheses(df)
  correlation_table(df, target_column="saleprice")
  \<close>
\<close>

definition main ::
    "libs \<Rightarrow> string \<Rightarrow> nat \<Rightarrow> string \<Rightarrow> string \<Rightarrow> string \<Rightarrow> string \<Rightarrow> unit prog" where
  "main lib host port user password database query =
     bind_p (connect_to_db lib host port user password database) (\<lambda>engine.
     bind_p (load_data lib engine query) (\<lambda>loaded.
     bind_p (put_frame loaded) (\<lambda>_.
     bind_p encode_categorical_variables (\<lambda>df.
     bind_p analyze_dataset (\<lambda>_.
     bind_p (test_hypotheses lib) (\<lambda>_.
       correlation_table lib ''saleprice''))))))"







section \<open>Example inputs\<close>

definition demo_frame :: dataframe where
  "demo_frame = \<lparr>nrows = 4, cols =
     [(''landuse'', \<lparr>dtype = Object, vals = [Str ''B'', Null, Str ''A'', Str ''B'']\<rparr>),
      (''saleprice'', \<lparr>dtype = Int64, vals = [Num 100, Num 110, Null, Num 210]\<rparr>)]\<rparr>"

text \<open>A frame whose land use repeats its second value before its first.\<close>

definition repeat_frame :: dataframe where
  "repeat_frame = \<lparr>nrows = 5, cols =
     [(''landuse'', \<lparr>dtype = Object, vals = [Str ''B'', Null, Str ''A'', Str ''A'', Str ''B'']\<rparr>),
      (''saleprice'', \<lparr>dtype = Int64, vals = [Num 100, Num 110, Null, Num 210, Num 90]\<rparr>)]\<rparr>"

text \<open>A land-use column where two texts tie for the most frequent value, and one where
  a number ties with them.\<close>

definition tie_column :: column where
  "tie_column = \<lparr>dtype = Object, vals = [Str ''B'', Str ''A'', Null, Str ''A'', Str ''B'']\<rparr>"

definition mixed_column :: column where
  "mixed_column =
     \<lparr>dtype = Object, vals = [Str ''b'', Num 1, Str ''a'', Str ''b'', Num 1, Str ''a'']\<rparr>"

definition mixed_frame :: dataframe where
  "mixed_frame = \<lparr>nrows = 6, cols = [(''landuse'', mixed_column)]\<rparr>"

text \<open>
  An arithmetic for the examples. It is exact where pandas computes in floating point;
  on the inputs of the examples below, the four decimals that are printed are the same.
  The coefficient is a stand-in: 1 for a column with itself, one half otherwise.
\<close>

definition exact_mean :: "real list \<Rightarrow> real" where
  "exact_mean xs = sum_list xs / real (length xs)"

definition exact_median :: "real list \<Rightarrow> real" where
  "exact_median xs =
     (let s = sort xs; n = length s
      in if odd n then s ! (n div 2) else (s ! (n div 2 - 1) + s ! (n div 2)) / 2)"

definition exact_var :: "real list \<Rightarrow> cell" where
  "exact_var xs =
     (if length xs < 2 then Null
      else Num (sum_list (map (\<lambda>x. (x - exact_mean xs)\<^sup>2) xs) / real (length xs - 1)))"

definition exact_quantile :: "real \<Rightarrow> real list \<Rightarrow> real" where
  "exact_quantile q xs =
     (let s = sort xs; n = length s; h = q * real (n - 1);
          lo = nat \<lfloor>h\<rfloor>; hi = min (lo + 1) (n - 1)
      in s ! lo + (h - real lo) * (s ! hi - s ! lo))"

definition stand_in_corr :: "(real \<times> real) list \<Rightarrow> cell" where
  "stand_in_corr ps = (if list_all (\<lambda>(a, b). a = b) ps then Num 1 else Num (1 / 2))"

text \<open>
  Three libraries: one that answers with the example frame, a server that refuses the
  connection, and one that has no such table. Their tests answer with the number of
  groups (of values) as the statistic.
\<close>

definition lib_up :: libs where
  "lib_up =
     \<lparr>create_engine = (\<lambda>url. Inr (Engine url)),
      read_sql_query = (\<lambda>query engine. Inr demo_frame),
      f_oneway = (\<lambda>groups. Inr (Num (real (length groups)), Num (1 / 100))),
      ttest_ind = (\<lambda>xs ys equal_var.
                    Inr (Num (real (length xs + length ys)), if equal_var then Num 0 else Null)),
      fl_mean = (\<lambda>xs. Num (exact_mean xs)),
      fl_median = (\<lambda>xs. Num (exact_median xs)),
      fl_var = exact_var,
      fl_quantile = (\<lambda>q xs. Num (exact_quantile q xs)),
      fl_corr = stand_in_corr\<rparr>"

definition lib_refusing :: libs where
  "lib_refusing =
     lib_up\<lparr>create_engine := (\<lambda>url. Inl (OperationalError ''connection refused''))\<rparr>"

definition lib_no_table :: libs where
  "lib_no_table =
     lib_up\<lparr>read_sql_query := (\<lambda>query engine. Inl (OperationalError ''no such table''))\<rparr>"

definition empty_world :: world where
  "empty_world = \<lparr>out = [], ds = \<lparr>nrows = 0, cols = []\<rparr>\<rparr>"






section \<open>Properties of the effects\<close>

text \<open>Laws of sequencing.\<close>

lemma bind_unit [simp]: "bind_p (unit_p x) f = f x"
  by (rule ext) (simp add: bind_p_def unit_p_def)

lemma bind_raise [simp]: "bind_p (raise_p e) f = raise_p e"
  by (rule ext) (simp add: bind_p_def raise_p_def)

lemma lift_Inr [simp]: "lift (Inr x) = unit_p x"
  by (simp add: lift_def)

lemma lift_Inl [simp]: "lift (Inl e) = raise_p e"
  by (simp add: lift_def)

lemma uniformI:
  assumes "\<And>s. \<exists>r ls. \<forall>pre. m (s\<lparr>out := pre\<rparr>) = (r, s\<lparr>out := pre @ ls\<rparr>)"
  shows "uniform m"
  unfolding uniform_def
proof
  fix s
  from assms[of s] obtain r ls where h: "\<And>pre. m (s\<lparr>out := pre\<rparr>) = (r, s\<lparr>out := pre @ ls\<rparr>)" by blast
  from h[of "out s"] h[of "[]"]
  show "m s = (fst (m (s\<lparr>out := []\<rparr>)), s\<lparr>out := out s @ out (snd (m (s\<lparr>out := []\<rparr>)))\<rparr>)"
    by simp
qed

lemma uniformD:
  assumes "uniform m"
  shows "\<exists>r ls. \<forall>pre. m (s\<lparr>out := pre\<rparr>) = (r, s\<lparr>out := pre @ ls\<rparr>)"
proof -
  let ?r = "fst (m (s\<lparr>out := []\<rparr>))" and ?ls = "out (snd (m (s\<lparr>out := []\<rparr>)))"
  have "\<forall>pre. m (s\<lparr>out := pre\<rparr>) = (?r, s\<lparr>out := pre @ ?ls\<rparr>)"
  proof
    fix pre
    from assms[unfolded uniform_def, rule_format, of "s\<lparr>out := pre\<rparr>"]
    show "m (s\<lparr>out := pre\<rparr>) = (?r, s\<lparr>out := pre @ ?ls\<rparr>)" by simp
  qed
  then show ?thesis by blast
qed

lemma uniform_unit: "uniform (unit_p x)"
  by (rule uniformI, rule exI[of _ "Return x"], rule exI[of _ "[]"]) (simp add: unit_p_def)

lemma uniform_raise: "uniform (raise_p e)"
  by (rule uniformI, rule exI[of _ "Raise e"], rule exI[of _ "[]"]) (simp add: raise_p_def)

lemma uniform_print: "uniform (print_p l)"
  by (rule uniformI, rule exI[of _ "Return ()"], rule exI[of _ "[l]"]) (simp add: print_p_def)

lemma uniform_lift: "uniform (lift r)"
  by (cases r) (simp_all add: uniform_unit uniform_raise)

lemma uniform_getitem: "uniform (getitem col)"
proof (rule uniformI)
  fix s
  show "\<exists>r ls. \<forall>pre. getitem col (s\<lparr>out := pre\<rparr>) = (r, s\<lparr>out := pre @ ls\<rparr>)"
    by (cases "map_of (cols (ds s)) col")
       (rule exI[of _ "Raise (KeyError col)"], rule exI[of _ "[]"], simp add: getitem_def,
        rule exI[of _ "Return (the (map_of (cols (ds s)) col))"], rule exI[of _ "[]"],
        simp add: getitem_def)
qed

lemma uniform_bind:
  assumes "uniform m" and "\<And>x. uniform (f x)"
  shows "uniform (bind_p m f)"
proof (rule uniformI)
  fix s
  from uniformD[OF assms(1), of s] obtain r ls
    where m: "\<And>pre. m (s\<lparr>out := pre\<rparr>) = (r, s\<lparr>out := pre @ ls\<rparr>)" by blast
  show "\<exists>r ls. \<forall>pre. bind_p m f (s\<lparr>out := pre\<rparr>) = (r, s\<lparr>out := pre @ ls\<rparr>)"
  proof (cases r)
    case (Return x)
    from uniformD[OF assms(2), of x s] obtain r' ls'
      where f: "\<And>pre. f x (s\<lparr>out := pre\<rparr>) = (r', s\<lparr>out := pre @ ls'\<rparr>)" by blast
    have "\<forall>pre. bind_p m f (s\<lparr>out := pre\<rparr>) = (r', s\<lparr>out := pre @ (ls @ ls')\<rparr>)"
      using m f[of "_ @ ls"] by (simp add: bind_p_def Return)
    then show ?thesis by blast
  next
    case (Raise e)
    have "\<forall>pre. bind_p m f (s\<lparr>out := pre\<rparr>) = (Raise e, s\<lparr>out := pre @ ls\<rparr>)"
      using m by (simp add: bind_p_def Raise)
    then show ?thesis by blast
  qed
qed

lemma uniform_block: "list_all uniform ms \<Longrightarrow> uniform (block ms)"
  by (induction ms) (simp_all add: uniform_unit uniform_bind)

lemma uniform_for_each: "(\<And>x. uniform (body x)) \<Longrightarrow> uniform (for_each xs body)"
  by (induction xs) (simp_all add: uniform_unit uniform_bind)

lemma uniform_try_except:
  assumes "uniform m" and "\<And>e. uniform (h e)"
  shows "uniform (try_except m h)"
proof (rule uniformI)
  fix s
  from uniformD[OF assms(1), of s] obtain r ls
    where m: "\<And>pre. m (s\<lparr>out := pre\<rparr>) = (r, s\<lparr>out := pre @ ls\<rparr>)" by blast
  show "\<exists>r ls. \<forall>pre. try_except m h (s\<lparr>out := pre\<rparr>) = (r, s\<lparr>out := pre @ ls\<rparr>)"
  proof (cases r)
    case (Return x)
    have "\<forall>pre. try_except m h (s\<lparr>out := pre\<rparr>) = (Return x, s\<lparr>out := pre @ ls\<rparr>)"
      using m by (simp add: try_except_def Return)
    then show ?thesis by blast
  next
    case (Raise e)
    show ?thesis
    proof (cases "is_Exception e")
      case True
      from uniformD[OF assms(2), of e s] obtain r' ls'
        where f: "\<And>pre. h e (s\<lparr>out := pre\<rparr>) = (r', s\<lparr>out := pre @ ls'\<rparr>)" by blast
      have "\<forall>pre. try_except m h (s\<lparr>out := pre\<rparr>) = (r', s\<lparr>out := pre @ (ls @ ls')\<rparr>)"
        using m f[of "_ @ ls"] True by (simp add: try_except_def Raise)
      then show ?thesis by blast
    next
      case False
      have "\<forall>pre. try_except m h (s\<lparr>out := pre\<rparr>) = (Raise e, s\<lparr>out := pre @ ls\<rparr>)"
        using m False by (simp add: try_except_def Raise)
      then show ?thesis by blast
    qed
  qed
qed

lemma uniform_show4: "uniform (show4 r mk)"
  unfolding show4_def by (intro uniform_bind uniform_lift uniform_print)

lemma uniform_numeric_column: "uniform (numeric_column lib col)"
  unfolding numeric_column_def
  by (rule uniform_block)
     (simp add: uniform_print uniform_bind uniform_getitem uniform_lift uniform_show4)

lemma uniform_categorical_column: "uniform (categorical_column col)"
  unfolding categorical_column_def
  by (rule uniform_block)
     (simp add: uniform_print uniform_bind uniform_getitem uniform_lift)


lemma uniform_out:
  "uniform m \<Longrightarrow> out (snd (m s)) = out s @ out (snd (m (s\<lparr>out := []\<rparr>)))"
  by (metis (no_types, lifting) uniform_def snd_conv world.select_convs(1) world.surjective
      world.update_convs(1))


lemma uniform_ds: "uniform m \<Longrightarrow> ds (snd (m s)) = ds s"
  by (metis (no_types, lifting) uniform_def snd_conv world.select_convs(2) world.surjective
      world.update_convs(1))

lemma uniform_run:
  "uniform m \<Longrightarrow> m s = (fst (m (s\<lparr>out := []\<rparr>)), s\<lparr>out := out s @ out (snd (m (s\<lparr>out := []\<rparr>)))\<rparr>)"
  unfolding uniform_def by blast

lemma empty_out: "s\<lparr>out := []\<rparr> = \<lparr>out = [], ds = ds s\<rparr>"
  by (cases s) simp

lemma for_each_all_return:
  assumes u: "\<And>x. uniform (body x)" and r: "\<And>x s. fst (body x s) = Return ()"
  shows "for_each xs body s =
     (Return (), s\<lparr>out := out s @ concat (map (\<lambda>x. out (snd (body x (s\<lparr>out := []\<rparr>)))) xs)\<rparr>)"
proof (induction xs arbitrary: s)
  case Nil
  then show ?case by (simp add: unit_p_def)
next
  case (Cons x xs)
  let ?s1 = "s\<lparr>out := out s @ out (snd (body x (s\<lparr>out := []\<rparr>)))\<rparr>"
  have b: "body x s = (Return (), ?s1)"
    using uniform_run[OF u, of x s] r[of x "s\<lparr>out := []\<rparr>"] by simp
  have e: "?s1\<lparr>out := []\<rparr> = s\<lparr>out := []\<rparr>" by simp
  show ?case
    by (simp add: bind_p_def b Cons.IH[of ?s1] e)
qed

lemma mild_unit: "mild (unit_p x)"
  by (simp add: mild_def unit_p_def)

lemma mild_print: "mild (print_p l)"
  by (simp add: mild_def print_p_def)

lemma mild_getitem: "mild (getitem col)"
  by (auto simp: mild_def getitem_def split: option.splits)

lemma mild_lift: "(\<And>e. r = Inl e \<Longrightarrow> is_Exception e) \<Longrightarrow> mild (lift r)"
  by (cases r) (simp_all add: mild_def unit_p_def raise_p_def)

lemma mild_bind: "mild m \<Longrightarrow> (\<And>x. mild (f x)) \<Longrightarrow> mild (bind_p m f)"
  unfolding mild_def bind_p_def
  by (auto split: prod.splits res.splits) (metis fst_conv)+

lemma mild_block: "list_all mild ms \<Longrightarrow> mild (block ms)"
  by (induction ms) (simp_all add: mild_unit mild_bind)

lemma stat_raises: "stat f vs = Inl e \<Longrightarrow> e = TypeError"
  by (auto simp: stat_def split: option.splits)

lemma col_max_raises: "col_max vs = Inl e \<Longrightarrow> e = TypeError"
  by (auto simp: col_max_def split: option.splits)

lemma col_min_raises: "col_min vs = Inl e \<Longrightarrow> e = TypeError"
  by (auto simp: col_min_def split: option.splits)

lemma fmt4_raises: "fmt4 v = Inl e \<Longrightarrow> e = ValueError"
  by (cases v) auto

lemma fmt_pct_raises: "fmt_pct v = Inl e \<Longrightarrow> e = ValueError"
  by (cases v) auto

lemma mild_show4: "(\<And>e. r = Inl e \<Longrightarrow> e = TypeError) \<Longrightarrow> mild (show4 r mk)"
  unfolding show4_def
  by (intro mild_bind mild_lift mild_print) (auto dest: fmt4_raises)

lemma col_quantile_raises: "col_quantile lib q c = Inl e \<Longrightarrow> e = TypeError"
  by (auto simp: col_quantile_def dest: stat_raises split: if_splits)

lemma mild_numeric_column: "mild (numeric_column lib col)"
  unfolding numeric_column_def
  by (rule mild_block)
     (auto intro!: mild_print mild_bind mild_getitem mild_lift mild_show4
           dest: fmt_pct_raises col_max_raises col_min_raises stat_raises col_quantile_raises
           simp: col_mean_def col_median_def col_var_def)

section \<open>Properties of the Encoder\<close>

lemma position_None: "position v us = None \<longleftrightarrow> v \<notin> set us"
  by (induction us) auto

lemma position_Some: "position v us = Some k \<Longrightarrow> k < length us \<and> us ! k = v"
  by (induction us arbitrary: k) (auto split: if_splits)

lemma factorize_from_length:
  "factorize_from us vs = (cs, us') \<Longrightarrow> length cs = length vs"
  by (induction vs arbitrary: us cs us')
     (auto split: if_splits option.splits prod.splits)

lemma factorize_from_extends:
  "factorize_from us vs = (cs, us') \<Longrightarrow> \<exists>ws. us' = us @ ws"
  by (induction vs arbitrary: us cs us')
     (fastforce split: if_splits option.splits prod.splits)+

lemma factorize_from_set:
  "factorize_from us vs = (cs, us') \<Longrightarrow> set us' = set us \<union> (set vs - {Null})"
  by (induction vs arbitrary: us cs us')
     (fastforce simp: position_None dest: position_Some split: if_splits option.splits prod.splits)+

lemma factorize_from_distinct:
  "factorize_from us vs = (cs, us') \<Longrightarrow> distinct us \<Longrightarrow> distinct us'"
  by (induction vs arbitrary: us cs us')
     (fastforce simp: position_None split: if_splits option.splits prod.splits)+

lemma factorize_from_codes:
  "factorize_from us vs = (cs, us') \<Longrightarrow> i < length vs \<Longrightarrow>
   (vs ! i = Null \<longrightarrow> cs ! i = - 1) \<and>
   (vs ! i \<noteq> Null \<longrightarrow> 0 \<le> cs ! i \<and> nat (cs ! i) < length us' \<and> us' ! nat (cs ! i) = vs ! i)"
proof (induction vs arbitrary: us cs us' i)
  case Nil
  then show ?case by simp
next
  case (Cons v vs)
  show ?case
  proof (cases i)
    case 0
    from Cons.prems(1) show ?thesis
      using 0
      by (auto simp: nth_append dest!: position_Some factorize_from_extends
               split: if_splits option.splits prod.splits)
  next
    case (Suc j)
    with Cons show ?thesis
      by (auto split: if_splits option.splits prod.splits)
  qed
qed


lemma encode_column_run:
  assumes "map_of (cols (ds s)) col = Some c"
  shows "encode_column col s =
     (Return (),
      s\<lparr>out := out s @ [EncHeader col, EncHead (take 5 (vals (encode_col c))),
                         EncCategories (take 5 (snd (factorize (vals c))))],
        ds := (ds s)\<lparr>cols := AList.update col (encode_col c) (cols (ds s))\<rparr>\<rparr>)"
  using assms
  by (simp add: encode_column_def bind_p_def getitem_def setitem_def print_p_def unit_p_def
      encode_col_def update_conv' split: prod.splits)

lemma encode_loop:
  assumes "set names \<subseteq> fst ` set (cols (ds s))" and "distinct names"
  shows "\<exists>s'. for_each names encode_column s = (Return (), s') \<and>
           nrows (ds s') = nrows (ds s) \<and>
           map fst (cols (ds s')) = map fst (cols (ds s)) \<and>
           (\<forall>n. map_of (cols (ds s')) n =
                  (if n \<in> set names then map_option encode_col (map_of (cols (ds s)) n)
                   else map_of (cols (ds s)) n))"
  using assms
proof (induction names arbitrary: s)
  case Nil
  then show ?case by (simp add: unit_p_def)
next
  case (Cons a names)
  from Cons.prems obtain c where c: "map_of (cols (ds s)) a = Some c"
    by (metis domD dom_map_of_conv_image_fst list.set_intros(1) subsetD)
  define s1 where "s1 = s\<lparr>out := out s @ [EncHeader a, EncHead (take 5 (vals (encode_col c))),
                         EncCategories (take 5 (snd (factorize (vals c))))],
        ds := (ds s)\<lparr>cols := AList.update a (encode_col c) (cols (ds s))\<rparr>\<rparr>"
  have run: "encode_column a s = (Return (), s1)"
    unfolding s1_def by (rule encode_column_run[OF c])
  have keys: "map fst (cols (ds s1)) = map fst (cols (ds s))"
    using c by (simp add: s1_def update_keys) (metis domI dom_map_of_conv_image_fst)
  have mp: "map_of (cols (ds s1)) = (map_of (cols (ds s)))(a \<mapsto> encode_col c)"
    by (simp add: s1_def update_conv')
  have "set names \<subseteq> fst ` set (cols (ds s1))"
    using Cons.prems(1) keys by (metis list.set_map set_subset_Cons subset_trans)
  moreover have "distinct names" using Cons.prems(2) by simp
  ultimately obtain s' where s': "for_each names encode_column s1 = (Return (), s')"
     "nrows (ds s') = nrows (ds s1)" "map fst (cols (ds s')) = map fst (cols (ds s1))"
     "\<forall>n. map_of (cols (ds s')) n =
                  (if n \<in> set names then map_option encode_col (map_of (cols (ds s1)) n)
                   else map_of (cols (ds s1)) n)"
    using Cons.IH[of s1] by blast
  have "for_each (a # names) encode_column s = (Return (), s')"
    by (simp add: bind_p_def run s')
  moreover have "nrows (ds s') = nrows (ds s)" using s'(2) by (simp add: s1_def)
  moreover have "map fst (cols (ds s')) = map fst (cols (ds s))" using s'(3) keys by simp
  moreover have "\<forall>n. map_of (cols (ds s')) n =
                  (if n \<in> set (a # names) then map_option encode_col (map_of (cols (ds s)) n)
                   else map_of (cols (ds s)) n)"
    using s'(4) mp c Cons.prems(2) by auto
  ultimately show ?case by blast
qed


lemma select_dtypes_distinct: "distinct (map fst (cols df)) \<Longrightarrow> distinct (select_dtypes inc df)"
  by (simp add: select_dtypes_def distinct_map_filter)

lemma select_dtypes_subset: "set (select_dtypes inc df) \<subseteq> fst ` set (cols df)"
  by (auto simp: select_dtypes_def)

lemma select_dtypes_iff:
  assumes "distinct (map fst (cols df))"
  shows "n \<in> set (select_dtypes inc df) \<longleftrightarrow>
         (\<exists>c. map_of (cols df) n = Some c \<and> dtype c \<in> set inc)"
  using assms by (auto simp: select_dtypes_def image_iff dest: map_of_SomeD)

lemma encoder_effect:
  assumes "wf_df (ds s)"
  shows "\<exists>s'. encode_categorical_variables s = (Return (ds s'), s') \<and>
           nrows (ds s') = nrows (ds s) \<and>
           map fst (cols (ds s')) = map fst (cols (ds s)) \<and>
           (\<forall>n. map_of (cols (ds s')) n =
                  map_option (\<lambda>c. if dtype c = Object \<or> dtype c = Category then encode_col c else c)
                    (map_of (cols (ds s)) n))"
proof -
  let ?names = "select_dtypes [Object, Category] (ds s)"
  have d: "distinct (map fst (cols (ds s)))" using assms by (simp add: wf_df_def)
  from encode_loop[OF select_dtypes_subset select_dtypes_distinct[OF d], of "[Object, Category]"]
  obtain s' where s': "for_each ?names encode_column s = (Return (), s')"
     "nrows (ds s') = nrows (ds s)" "map fst (cols (ds s')) = map fst (cols (ds s))"
     "\<forall>n. map_of (cols (ds s')) n =
                  (if n \<in> set ?names then map_option encode_col (map_of (cols (ds s)) n)
                   else map_of (cols (ds s)) n)"
    by blast
  have "encode_categorical_variables s = (Return (ds s'), s')"
    by (simp add: encode_categorical_variables_def bind_p_def s')
  moreover have "\<forall>n. map_of (cols (ds s')) n =
                  map_option (\<lambda>c. if dtype c = Object \<or> dtype c = Category then encode_col c else c)
                    (map_of (cols (ds s)) n)"
  proof
    fix n
    show "map_of (cols (ds s')) n =
                  map_option (\<lambda>c. if dtype c = Object \<or> dtype c = Category then encode_col c else c)
                    (map_of (cols (ds s)) n)"
      using s'(4) select_dtypes_iff[OF d, of n "[Object, Category]"]
      by (cases "map_of (cols (ds s)) n") auto
  qed
  ultimately show ?thesis using s'(2,3) by blast
qed

text \<open>
  Claim C1. For every categorical column the Encoder encodes, the column becomes the codes
  of \<open>factorize\<close>; the codes and the label list have the round-trip property: a null row
  has the single sentinel code \<open>-1\<close>, every other row has a code that is an index into the
  label list, and the label at that index is the row's original value. Equal values get
  equal codes and different values different codes, and the codes in use are exactly
  \<open>0, ..., length labels - 1\<close>: the recorded mapping is a bijection from the column's
  non-null values onto these small non-negative integers.
\<close>

theorem encoder_round_trip:
  assumes "wf_df (ds s)"
    and "map_of (cols (ds s)) name = Some c"
    and "dtype c = Object \<or> dtype c = Category"
    and "factorize (vals c) = (codes, labels)"
  shows "(\<exists>c'. map_of (cols (ds (snd (encode_categorical_variables s)))) name = Some c' \<and>
               vals c' = map (\<lambda>k. Num (of_int k)) codes) \<and>
         length codes = length (vals c) \<and>
         distinct labels \<and> set labels = set (vals c) - {Null} \<and>
         (\<forall>i<length (vals c).
            if vals c ! i = Null then codes ! i = - 1
            else 0 \<le> codes ! i \<and> nat (codes ! i) < length labels \<and>
                 labels ! nat (codes ! i) = vals c ! i) \<and>
         (\<forall>i<length (vals c). \<forall>j<length (vals c).
            vals c ! i \<noteq> Null \<and> vals c ! j \<noteq> Null \<longrightarrow>
            (codes ! i = codes ! j \<longleftrightarrow> vals c ! i = vals c ! j)) \<and>
         (\<lambda>i. codes ! i) ` {i. i < length (vals c) \<and> vals c ! i \<noteq> Null} =
           {0..<int (length labels)}"
proof -
  let ?vs = "vals c"
  have f: "factorize_from [] ?vs = (codes, labels)" using assms(4) by (simp add: factorize_def)
  have len: "length codes = length ?vs" by (rule factorize_from_length[OF f])
  have dist: "distinct labels" using factorize_from_distinct[OF f] by simp
  have st: "set labels = set ?vs - {Null}" using factorize_from_set[OF f] by simp
  have rt: "\<And>i. i < length ?vs \<Longrightarrow> (?vs ! i = Null \<longrightarrow> codes ! i = - 1) \<and>
       (?vs ! i \<noteq> Null \<longrightarrow> 0 \<le> codes ! i \<and> nat (codes ! i) < length labels \<and>
          labels ! nat (codes ! i) = ?vs ! i)"
    by (rule factorize_from_codes[OF f])
  obtain s' where s': "encode_categorical_variables s = (Return (ds s'), s')"
     "\<forall>n. map_of (cols (ds s')) n =
                  map_option (\<lambda>c. if dtype c = Object \<or> dtype c = Category then encode_col c else c)
                    (map_of (cols (ds s)) n)"
    using encoder_effect[OF assms(1)] by blast
  have enc: "\<exists>c'. map_of (cols (ds (snd (encode_categorical_variables s)))) name = Some c' \<and>
               vals c' = map (\<lambda>k. Num (of_int k)) codes"
    using s' assms(2,3,4) by (auto simp: encode_col_def codes_column_def)
  have inj: "\<forall>i<length ?vs. \<forall>j<length ?vs.
            ?vs ! i \<noteq> Null \<and> ?vs ! j \<noteq> Null \<longrightarrow>
            (codes ! i = codes ! j \<longleftrightarrow> ?vs ! i = ?vs ! j)"
  proof (intro allI impI)
    fix i j assume i: "i < length ?vs" and j: "j < length ?vs"
      and nn: "?vs ! i \<noteq> Null \<and> ?vs ! j \<noteq> Null"
    from rt[OF i] rt[OF j] nn
    have ci: "0 \<le> codes ! i" "nat (codes ! i) < length labels" "labels ! nat (codes ! i) = ?vs ! i"
      and cj: "0 \<le> codes ! j" "nat (codes ! j) < length labels" "labels ! nat (codes ! j) = ?vs ! j"
      by auto
    show "codes ! i = codes ! j \<longleftrightarrow> ?vs ! i = ?vs ! j"
    proof
      assume "codes ! i = codes ! j" then show "?vs ! i = ?vs ! j" using ci cj by metis
    next
      assume "?vs ! i = ?vs ! j"
      then have "labels ! nat (codes ! i) = labels ! nat (codes ! j)" using ci cj by simp
      then have "nat (codes ! i) = nat (codes ! j)"
        using dist ci(2) cj(2) by (simp add: nth_eq_iff_index_eq)
      then show "codes ! i = codes ! j" using ci(1) cj(1) by simp
    qed
  qed
  have onto: "(\<lambda>i. codes ! i) ` {i. i < length ?vs \<and> ?vs ! i \<noteq> Null} = {0..<int (length labels)}"
  proof (intro equalityI subsetI)
    fix k assume "k \<in> (\<lambda>i. codes ! i) ` {i. i < length ?vs \<and> ?vs ! i \<noteq> Null}"
    then obtain i where "i < length ?vs" "?vs ! i \<noteq> Null" "k = codes ! i" by auto
    then show "k \<in> {0..<int (length labels)}" using rt[of i] by auto
  next
    fix k assume k: "k \<in> {0..<int (length labels)}"
    then have kl: "nat k < length labels" by auto
    then have "labels ! nat k \<in> set ?vs - {Null}" using st nth_mem by blast
    then obtain i where i: "i < length ?vs" "?vs ! i = labels ! nat k" "?vs ! i \<noteq> Null"
      by (metis Diff_iff in_set_conv_nth insertI1)
    with rt[OF i(1)] have "0 \<le> codes ! i" "nat (codes ! i) < length labels"
        "labels ! nat (codes ! i) = labels ! nat k" by auto
    then have "nat (codes ! i) = nat k" using dist kl by (simp add: nth_eq_iff_index_eq)
    then have "codes ! i = k" using \<open>0 \<le> codes ! i\<close> k by auto
    then show "k \<in> (\<lambda>i. codes ! i) ` {i. i < length ?vs \<and> ?vs ! i \<noteq> Null}"
      using i by blast
  qed
  show ?thesis using enc len dist st rt inj onto by simp
qed

text \<open>The theorem at a column with a repeated value and a null.\<close>

theorem encoder_round_trip_witness:
  "(\<exists>c'. map_of (cols (ds (snd (encode_categorical_variables \<lparr>out = [], ds = demo_frame\<rparr>)))) ''landuse''
           = Some c' \<and> vals c' = [Num 0, Num (- 1), Num 1, Num 0]) \<and>
   factorize [Str ''B'', Null, Str ''A'', Str ''B''] = ([0, - 1, 1, 0], [Str ''B'', Str ''A''])"
proof -
  have w: "wf_df (ds \<lparr>out = [], ds = demo_frame\<rparr>)"
    by (simp add: wf_df_def demo_frame_def)
  have m: "map_of (cols (ds \<lparr>out = [], ds = demo_frame\<rparr>)) ''landuse''
        = Some \<lparr>dtype = Object, vals = [Str ''B'', Null, Str ''A'', Str ''B'']\<rparr>"
    by (simp add: demo_frame_def)
  have f: "factorize (vals \<lparr>dtype = Object, vals = [Str ''B'', Null, Str ''A'', Str ''B'']\<rparr>)
       = ([0, - 1, 1, 0], [Str ''B'', Str ''A''])"
    by (simp add: factorize_def)
  from encoder_round_trip[OF w m _ f] f show ?thesis by simp
qed

section \<open>Properties of the profilers\<close>

lemma uniform_numeric_try:
  "uniform (try_except (numeric_column lib col) (\<lambda>e. print_p (NumError col e)))"
  by (intro uniform_try_except uniform_numeric_column uniform_print)

lemma numeric_try_returns:
  "fst (try_except (numeric_column lib col) (\<lambda>e. print_p (NumError col e)) s) = Return ()"
proof (cases "numeric_column lib col s")
  case (Pair r s')
  show ?thesis
  proof (cases r)
    case (Return u)
    then show ?thesis using Pair by (simp add: try_except_def)
  next
    case (Raise e)
    then have "is_Exception e" using mild_numeric_column[of lib col] Pair
      by (auto simp: mild_def) (metis fst_conv)
    then show ?thesis using Pair Raise by (simp add: try_except_def print_p_def)
  qed
qed

lemma block_print_first:
  "block (print_p l # ms) s = block ms (s\<lparr>out := out s @ [l]\<rparr>)"
  by (simp add: bind_p_def print_p_def)

lemma numeric_column_header:
  "\<exists>ls. out (snd (numeric_column lib col s)) = out s @ NumHeader col # ls"
  unfolding numeric_column_def
  apply (subst block_print_first)
  apply (subst uniform_out)
   apply (rule uniform_block)
   apply (simp add: uniform_print uniform_bind uniform_getitem uniform_lift uniform_show4)
  apply simp
  done

lemma try_except_out:
  "\<exists>ls. out (snd (try_except m (\<lambda>e. print_p (mk e)) s)) = out (snd (m s)) @ ls"
  by (cases "m s") (auto simp: try_except_def print_p_def split: res.splits)

lemma numeric_report_header: "\<exists>rest. numeric_report lib df col = NumHeader col # rest"
proof -
  let ?s = "\<lparr>out = [], ds = df\<rparr>"
  from numeric_column_header[of lib col ?s] obtain ls
    where "out (snd (numeric_column lib col ?s)) = NumHeader col # ls" by auto
  moreover from try_except_out[of "numeric_column lib col" "NumError col" ?s] obtain ls'
    where "numeric_report lib df col = out (snd (numeric_column lib col ?s)) @ ls'"
    by (auto simp: numeric_report_def)
  ultimately show ?thesis by simp
qed

lemma numeric_report_error:
  assumes "fst (numeric_column lib col \<lparr>out = [], ds = df\<rparr>) = Raise e"
  shows "\<exists>ls. numeric_report lib df col = ls @ [NumError col e]"
proof -
  let ?s = "\<lparr>out = [], ds = df\<rparr>"
  obtain s' where s': "numeric_column lib col ?s = (Raise e, s')"
    using assms by (cases "numeric_column lib col ?s") simp
  have "is_Exception e" using mild_numeric_column[of lib col] assms by (auto simp: mild_def)
  then have "numeric_report lib df col = out s' @ [NumError col e]"
    by (simp add: numeric_report_def try_except_def s' print_p_def)
  then show ?thesis by blast
qed

text \<open>
  Claim C4. Whatever the list of column names, the Numeric Profiler returns normally and
  its output is, column after column in the order of the list, the report of each
  column: a failure in one column does not keep the later columns from being processed.
  Every report starts with the column's header, and the report of a column whose
  profile raises ends with the line that logs this failure.
\<close>

theorem numeric_profiler_isolates_failures:
  "exploratory_analysis_numeric lib columns s =
     (Return (), s\<lparr>out := out s @ concat (map (numeric_report lib (ds s)) columns)\<rparr>) \<and>
   (\<forall>col. \<exists>rest. numeric_report lib df col = NumHeader col # rest) \<and>
   (\<forall>col e. fst (numeric_column lib col \<lparr>out = [], ds = df\<rparr>) = Raise e \<longrightarrow>
        (\<exists>ls. numeric_report lib df col = ls @ [NumError col e]))"
proof -
  have "exploratory_analysis_numeric lib columns s =
     (Return (), s\<lparr>out := out s @ concat (map (numeric_report lib (ds s)) columns)\<rparr>)"
    unfolding exploratory_analysis_numeric_def
    by (subst for_each_all_return[OF uniform_numeric_try numeric_try_returns])
       (simp add: numeric_report_def[abs_def] empty_out)
  then show ?thesis
    using numeric_report_header numeric_report_error by blast
qed

text \<open>The theorem on a frame whose first column is textual.\<close>

theorem numeric_profiler_isolates_failures_witness:
  "exploratory_analysis_numeric lib_up [''landuse'', ''saleprice''] \<lparr>out = [], ds = demo_frame\<rparr> =
     (Return (),
      \<lparr>out = [NumHeader ''landuse'', MissingShare (Num 25), NumError ''landuse'' TypeError,
              NumHeader ''saleprice'', MissingShare (Num 25), Maximum (Num 210),
              Minimum (Num 100), Mean (Num 140), Median (Num 110), Variance (Num 3700),
              Quantile01 (Num 102), Quantile09 (Num 190), Quartile1 (Num 105),
              Quartile3 (Num 160)],
       ds = demo_frame\<rparr>) \<and>
   fst (numeric_column lib_up ''landuse'' \<lparr>out = [], ds = demo_frame\<rparr>) = Raise TypeError \<and>
   (\<exists>ls. numeric_report lib_up demo_frame ''landuse'' = ls @ [NumError ''landuse'' TypeError])"
proof -
  have r1: "numeric_report lib_up demo_frame ''landuse'' =
      [NumHeader ''landuse'', MissingShare (Num 25), NumError ''landuse'' TypeError]"
    by code_simp
  have r2: "numeric_report lib_up demo_frame ''saleprice'' =
     [NumHeader ''saleprice'', MissingShare (Num 25), Maximum (Num 210),
      Minimum (Num 100), Mean (Num 140), Median (Num 110),
      Variance (Num 3700), Quantile01 (Num 102), Quantile09 (Num 190),
      Quartile1 (Num 105), Quartile3 (Num 160)]"
    by code_simp
  have f: "fst (numeric_column lib_up ''landuse'' \<lparr>out = [], ds = demo_frame\<rparr>) = Raise TypeError"
    by code_simp
  from numeric_profiler_isolates_failures
         [where lib = lib_up and columns = "[''landuse'', ''saleprice'']"
            and s = "\<lparr>out = [], ds = demo_frame\<rparr>" and df = demo_frame]
  show ?thesis using f by (simp add: r1 r2)
qed


lemma for_each_append:
  "for_each (xs @ ys) body = bind_p (for_each xs body) (\<lambda>_. for_each ys body)"
proof (induction xs)
  case Nil
  show ?case by simp
next
  case (Cons x xs)
  show ?case
    by (rule ext) (simp add: Cons bind_p_def split: prod.splits res.splits)
qed

text \<open>
  Claim C5. The Categorical Profiler has no handler: when the columns \<open>before\<close> have been
  profiled and the profile of \<open>col\<close> raises, the whole call raises that exception in the
  state where it was raised, whatever columns \<open>rest\<close> remain: none of them is processed.
\<close>

theorem categorical_profiler_aborts:
  assumes "exploratory_analysis_categorical before s = (Return (), s1)"
    and "categorical_column col s1 = (Raise e, s2)"
  shows "exploratory_analysis_categorical (before @ col # rest) s = (Raise e, s2)"
  using assms
  by (simp add: exploratory_analysis_categorical_def for_each_append bind_p_def)

text \<open>The theorem on a list whose second column is missing.\<close>

theorem categorical_profiler_aborts_witness:
  "exploratory_analysis_categorical [''landuse'', ''nope'', ''saleprice'']
       \<lparr>out = [], ds = demo_frame\<rparr> =
     (Raise (KeyError ''nope''),
      \<lparr>out = [CatHeader ''landuse'', MissingShare (Num 25), UniqueCount 2,
              ModeLine (Some (Str ''B'')), CatHeader ''nope''],
       ds = demo_frame\<rparr>)"
proof -
  have a: "exploratory_analysis_categorical [''landuse''] \<lparr>out = [], ds = demo_frame\<rparr> =
     (Return (), \<lparr>out = [CatHeader ''landuse'', MissingShare (Num 25), UniqueCount 2,
              ModeLine (Some (Str ''B''))], ds = demo_frame\<rparr>)"
    by code_simp
  have b: "categorical_column ''nope''
       \<lparr>out = [CatHeader ''landuse'', MissingShare (Num 25), UniqueCount 2,
              ModeLine (Some (Str ''B''))], ds = demo_frame\<rparr> =
     (Raise (KeyError ''nope''),
      \<lparr>out = [CatHeader ''landuse'', MissingShare (Num 25), UniqueCount 2,
              ModeLine (Some (Str ''B'')), CatHeader ''nope''],
       ds = demo_frame\<rparr>)"
    by code_simp
  from categorical_profiler_aborts[OF a b, of "[''saleprice'']"] show ?thesis by simp
qed


subsection \<open>The mode\<close>

lemma unique_from_set: "set (unique_from seen vs) = set seen \<union> set vs"
  by (induction vs arbitrary: seen) auto

lemma unique_from_distinct: "distinct seen \<Longrightarrow> distinct (unique_from seen vs)"
  by (induction vs arbitrary: seen) auto

lemma set_unique: "set (unique vs) = set vs"
  by (simp add: unique_def unique_from_set)

lemma distinct_unique: "distinct (unique vs)"
  by (simp add: unique_def unique_from_distinct)

lemma set_dropna: "set (dropna vs) = set vs - {Null}"
  by (auto simp: dropna_def)

lemma count_list_dropna: "u \<noteq> Null \<Longrightarrow> count_list (dropna vs) u = count_list vs u"
  by (induction vs) (auto simp: dropna_def)

lemma most_frequent_iff: "v \<in> set (most_frequent vs) \<longleftrightarrow> is_most_frequent v vs"
  by (auto simp: most_frequent_def is_most_frequent_def Let_def set_unique set_dropna
      count_list_dropna)

lemma most_frequent_nonempty:
  assumes "dropna vs \<noteq> []"
  shows "most_frequent vs \<noteq> []"
proof -
  let ?S = "set (dropna vs)"
  have fin: "finite (count_list vs ` ?S)" and ne: "count_list vs ` ?S \<noteq> {}"
    using assms by auto
  from Max_in[OF fin ne] obtain v where v: "v \<in> ?S" "count_list vs v = Max (count_list vs ` ?S)"
    by auto
  have "\<forall>u \<in> ?S. count_list vs u \<le> count_list vs v"
    using v(2) fin by auto
  then have "is_most_frequent v vs"
    using v(1) by (auto simp: is_most_frequent_def set_dropna)
  then show ?thesis using most_frequent_iff[of v vs] by auto
qed

lemma most_frequent_empty: "dropna vs = [] \<Longrightarrow> most_frequent vs = []"
  by (simp add: most_frequent_def unique_def)

lemma set_map_filter_num: "set (List.map_filter num_of vs) = {x. Num x \<in> set vs}"
proof (induction vs)
  case Nil
  show ?case by (simp add: List.map_filter_simps)
next
  case (Cons v vs)
  then show ?case by (cases v) (auto simp: List.map_filter_simps)
qed

lemma set_map_filter_str: "set (List.map_filter str_of vs) = {t. Str t \<in> set vs}"
proof (induction vs)
  case Nil
  show ?case by (simp add: List.map_filter_simps)
next
  case (Cons v vs)
  then show ?case by (cases v) (auto simp: List.map_filter_simps)
qed

lemma set_sort_cells: "set (sort_cells vs) = set vs - {Null}"
proof -
  have "\<And>v. v \<in> set (sort_cells vs) \<longleftrightarrow> v \<in> set vs \<and> v \<noteq> Null"
  proof -
    fix v
    show "v \<in> set (sort_cells vs) \<longleftrightarrow> v \<in> set vs \<and> v \<noteq> Null"
      by (cases v) (auto simp: sort_cells_def set_map_filter_num set_map_filter_str)
  qed
  then show ?thesis by auto
qed

lemma sorted_sort_cells: "sorted_wrt sort_le (sort_cells vs)"
proof -
  have "sorted_wrt sort_le (map Num (sort (List.map_filter num_of vs)))"
    using sorted_sort[of "List.map_filter num_of vs"] by (simp add: sorted_wrt_map)
  moreover have "sorted_wrt sort_le (map Str (sort (List.map_filter str_of vs)))"
    using sorted_sort[of "List.map_filter str_of vs"] by (simp add: sorted_wrt_map)
  ultimately show ?thesis by (auto simp: sort_cells_def sorted_wrt_append)
qed

lemma sort_le_refl: "v \<noteq> Null \<Longrightarrow> sort_le v v"
  by (cases v) auto

lemma most_frequent_not_Null: "Null \<notin> set (most_frequent vs)"
  by (simp add: most_frequent_iff is_most_frequent_def)

lemma set_mode_series: "set (mode_series vs) = set (most_frequent vs)"
  using most_frequent_not_Null[of vs] by (simp add: mode_series_def set_sort_cells)

lemma sorted_mode_series: "sorted_wrt sort_le (mode_series vs)"
  by (simp add: mode_series_def sorted_sort_cells)

lemma mode_series_iff: "v \<in> set (mode_series vs) \<longleftrightarrow> is_most_frequent v vs"
  by (simp add: set_mode_series most_frequent_iff)

lemma mode_series_head_least:
  assumes "mode_series vs = m # rest" and "is_most_frequent v vs"
  shows "sort_le m v"
proof -
  have "sorted_wrt sort_le (m # rest)" using sorted_mode_series[of vs] assms(1) by simp
  then have tl: "\<forall>y \<in> set rest. sort_le m y" by simp
  have "v \<in> set (m # rest)" using assms mode_series_iff[of v vs] by simp
  moreover have "sort_le m m"
  proof -
    have "m \<in> set (mode_series vs)" using assms(1) by simp
    then have "m \<noteq> Null" using mode_series_iff[of m vs] by (auto simp: is_most_frequent_def)
    then show ?thesis by (rule sort_le_refl)
  qed
  ultimately show ?thesis using tl by auto
qed

lemma fmt_pct_isnull_mean: "\<exists>w. fmt_pct (isnull_mean vs) = Inr w"
  by (simp add: isnull_mean_def)

lemma categorical_column_run:
  assumes "map_of (cols (ds s)) col = Some c"
  shows "\<exists>share. categorical_column col s =
     (Return (), s\<lparr>out := out s @ [CatHeader col, MissingShare share, UniqueCount (nunique (vals c)),
        ModeLine (case mode_series (vals c) of [] \<Rightarrow> None | m # _ \<Rightarrow> Some m)]\<rparr>)"
proof -
  obtain w where w: "fmt_pct (isnull_mean (vals c)) = Inr w" using fmt_pct_isnull_mean by blast
  have g: "\<And>t. map_of (cols (ds t)) col = Some c \<Longrightarrow> getitem col t = (Return c, t)"
    by (simp add: getitem_def)
  have "categorical_column col s =
     (Return (), s\<lparr>out := out s @ [CatHeader col, MissingShare w, UniqueCount (nunique (vals c)),
        ModeLine (case mode_series (vals c) of [] \<Rightarrow> None | m # _ \<Rightarrow> Some m)]\<rparr>)"
    using assms
    by (simp add: categorical_column_def bind_p_def print_p_def unit_p_def g w)
  then show ?thesis by blast
qed

lemma categorical_column_missing:
  assumes "map_of (cols (ds s)) col = None"
  shows "categorical_column col s = (Raise (KeyError col), s\<lparr>out := out s @ [CatHeader col]\<rparr>)"
  using assms
  by (simp add: categorical_column_def bind_p_def print_p_def getitem_def)

text \<open>
  Claim C10. For a column of the frame the Categorical Profiler prints the header, the
  share of nulls, the number of distinct values and the mode. The sentinel is printed
  exactly when the column has no non-null value. Otherwise the value printed is the first
  element of the mode series. The mode series holds exactly the most frequent values and
  is sorted (numbers by value, texts as strings, a number before a text), so the value
  printed is the smallest of the most frequent values in that order.
\<close>

theorem categorical_mode_deterministic:
  assumes "map_of (cols (ds s)) col = Some c"
  shows "\<exists>share shown. categorical_column col s =
     (Return (), s\<lparr>out := out s @ [CatHeader col, MissingShare share,
                                 UniqueCount (nunique (vals c)), ModeLine shown]\<rparr>) \<and>
     (shown = None \<longleftrightarrow> dropna (vals c) = []) \<and>
     (\<forall>m. shown = Some m \<longrightarrow>
        (\<exists>rest. mode_series (vals c) = m # rest) \<and> is_most_frequent m (vals c) \<and>
        (\<forall>v. is_most_frequent v (vals c) \<longrightarrow> sort_le m v)) \<and>
     sorted_wrt sort_le (mode_series (vals c)) \<and>
     (\<forall>v. v \<in> set (mode_series (vals c)) \<longleftrightarrow> is_most_frequent v (vals c))"
proof -
  let ?shown = "case mode_series (vals c) of [] \<Rightarrow> None | m # _ \<Rightarrow> Some m"
  from categorical_column_run[OF assms] obtain share where
    run: "categorical_column col s =
     (Return (), s\<lparr>out := out s @ [CatHeader col, MissingShare share,
                                 UniqueCount (nunique (vals c)), ModeLine ?shown]\<rparr>)" by blast
  have a: "?shown = None \<longleftrightarrow> dropna (vals c) = []"
  proof
    assume "?shown = None"
    then have "mode_series (vals c) = []" by (simp split: list.splits)
    then have "most_frequent (vals c) = []" using set_mode_series[of "vals c"] by simp
    then show "dropna (vals c) = []" using most_frequent_nonempty by blast
  next
    assume "dropna (vals c) = []"
    then have "most_frequent (vals c) = []" by (rule most_frequent_empty)
    then have "mode_series (vals c) = []" using set_mode_series[of "vals c"] by simp
    then show "?shown = None" by simp
  qed
  have b: "\<forall>m. ?shown = Some m \<longrightarrow>
        (\<exists>rest. mode_series (vals c) = m # rest) \<and> is_most_frequent m (vals c) \<and>
        (\<forall>v. is_most_frequent v (vals c) \<longrightarrow> sort_le m v)"
  proof (intro allI impI)
    fix m assume "?shown = Some m"
    then obtain rest where r: "mode_series (vals c) = m # rest" by (auto split: list.splits)
    then have "m \<in> set (mode_series (vals c))" by simp
    then have "is_most_frequent m (vals c)" by (simp add: mode_series_iff)
    then show "(\<exists>rest. mode_series (vals c) = m # rest) \<and> is_most_frequent m (vals c) \<and>
        (\<forall>v. is_most_frequent v (vals c) \<longrightarrow> sort_le m v)"
      using r mode_series_head_least[OF r] by blast
  qed
  have c: "sorted_wrt sort_le (mode_series (vals c))" by (rule sorted_mode_series)
  have d: "\<forall>v. v \<in> set (mode_series (vals c)) \<longleftrightarrow> is_most_frequent v (vals c)"
    by (simp add: mode_series_iff)
  show ?thesis
    by (rule exI[of _ share], rule exI[of _ "?shown"]) (use run a b c d in auto)
qed

text \<open>The theorem on a column where a number ties with two texts; and the mode of a
  column where two texts tie.\<close>

theorem categorical_mode_deterministic_witness:
  "categorical_column ''landuse'' \<lparr>out = [], ds = mixed_frame\<rparr> =
     (Return (), \<lparr>out = [CatHeader ''landuse'', MissingShare (Num 0), UniqueCount 3,
                         ModeLine (Some (Num 1))], ds = mixed_frame\<rparr>) \<and>
   is_most_frequent (Str ''b'') (vals mixed_column) \<and>
   sort_le (Num 1) (Str ''b'') \<and>
   mode_series (vals mixed_column) = [Num 1, Str ''a'', Str ''b''] \<and>
   mode_series (vals tie_column) = [Str ''A'', Str ''B'']"
proof -
  have run: "categorical_column ''landuse'' \<lparr>out = [], ds = mixed_frame\<rparr> =
     (Return (), \<lparr>out = [CatHeader ''landuse'', MissingShare (Num 0), UniqueCount 3,
                         ModeLine (Some (Num 1))], ds = mixed_frame\<rparr>)"
    by code_simp
  have m: "map_of (cols (ds \<lparr>out = [], ds = mixed_frame\<rparr>)) ''landuse'' = Some mixed_column"
    by (simp add: mixed_frame_def)
  have f: "is_most_frequent (Str ''b'') (vals mixed_column)" by code_simp
  have ms: "mode_series (vals mixed_column) = [Num 1, Str ''a'', Str ''b'']" by code_simp
  have ts: "mode_series (vals tie_column) = [Str ''A'', Str ''B'']" by code_simp
  from categorical_mode_deterministic[OF m] obtain share shown where
    h: "categorical_column ''landuse'' \<lparr>out = [], ds = mixed_frame\<rparr> =
          (Return (), \<lparr>out = [], ds = mixed_frame\<rparr>\<lparr>out := out \<lparr>out = [], ds = mixed_frame\<rparr> @
             [CatHeader ''landuse'', MissingShare share,
              UniqueCount (nunique (vals mixed_column)), ModeLine shown]\<rparr>)"
       "\<forall>m. shown = Some m \<longrightarrow>
        (\<exists>rest. mode_series (vals mixed_column) = m # rest) \<and>
        is_most_frequent m (vals mixed_column) \<and>
        (\<forall>v. is_most_frequent v (vals mixed_column) \<longrightarrow> sort_le m v)"
    by blast
  from h(1) run have "shown = Some (Num 1)" by simp
  with h(2) f have "sort_le (Num 1) (Str ''b'')" by blast
  with run f ms ts show ?thesis by blast
qed

section \<open>Properties of the stages\<close>

subsection \<open>Which stage writes the dataset\<close>

lemma uniform_get_frame: "uniform get_frame"
  by (rule uniformI, rule exI[of _ "Return (ds s)" for s], rule exI[of _ "[]"])
     (simp add: get_frame_def)

lemma uniform_analyze_dataset: "uniform analyze_dataset"
  unfolding analyze_dataset_def by (intro uniform_bind uniform_get_frame uniform_print)

lemma uniform_where_eq: "uniform (where_eq key v target)"
  unfolding where_eq_def
  by (intro uniform_bind uniform_getitem uniform_get_frame uniform_lift uniform_unit)

lemma uniform_map_p: "(\<And>x. uniform (f x)) \<Longrightarrow> uniform (map_p f xs)"
  by (induction xs) (simp_all add: uniform_unit uniform_bind)

lemma uniform_if: "uniform a \<Longrightarrow> uniform b \<Longrightarrow> uniform (if c then a else b)"
  by simp

lemma uniform_case_prod: "(\<And>a b. uniform (f a b)) \<Longrightarrow> uniform (case p of (a, b) \<Rightarrow> f a b)"
  by (cases p) simp

lemma uniform_hypothesis_1: "uniform (hypothesis_1 lib)"
  unfolding hypothesis_1_def
  by (intro uniform_bind uniform_print uniform_getitem uniform_map_p uniform_where_eq
      uniform_lift uniform_case_prod uniform_if)

lemma uniform_hypothesis_2: "uniform (hypothesis_2 lib)"
  unfolding hypothesis_2_def
  by (intro uniform_bind uniform_print uniform_getitem uniform_where_eq
      uniform_lift uniform_case_prod uniform_if)

lemma uniform_test_hypotheses: "uniform (test_hypotheses lib)"
  unfolding test_hypotheses_def
  by (intro uniform_bind uniform_hypothesis_1 uniform_hypothesis_2)

lemma uniform_correlation_table: "uniform (correlation_table lib target)"
  unfolding correlation_table_def
  by (intro uniform_bind uniform_get_frame uniform_lift uniform_block)
     (simp add: uniform_print)

lemma uniform_exploratory_numeric: "uniform (exploratory_analysis_numeric lib columns)"
  unfolding exploratory_analysis_numeric_def
  by (intro uniform_for_each uniform_numeric_try)

lemma uniform_exploratory_categorical: "uniform (exploratory_analysis_categorical columns)"
  unfolding exploratory_analysis_categorical_def
  by (intro uniform_for_each uniform_categorical_column)

lemma uniform_connect_to_db: "uniform (connect_to_db lib host port user password database)"
  unfolding connect_to_db_def
  by (intro uniform_try_except uniform_bind uniform_lift uniform_print uniform_unit uniform_raise)

lemma uniform_load_data: "uniform (load_data lib engine query)"
  unfolding load_data_def
  by (intro uniform_try_except uniform_bind uniform_lift uniform_print uniform_unit uniform_raise)

lemma factorize_from_labels:
  "snd (factorize_from us vs) = unique_from us (dropna vs)"
proof (induction vs arbitrary: us)
  case Nil
  show ?case by (simp add: dropna_def)
next
  case (Cons v vs)
  show ?case
  proof (cases "v = Null")
    case True
    then show ?thesis using Cons[of us] by (auto simp: dropna_def split: prod.splits)
  next
    case False
    show ?thesis
    proof (cases "position v us")
      case None
      then have "v \<notin> set us" by (simp add: position_None)
      then show ?thesis
        using Cons[of "us @ [v]"] None False by (auto simp: dropna_def split: prod.splits)
    next
      case (Some k)
      then have "v \<in> set us" using position_None[of v us] by auto
      then show ?thesis
        using Cons[of us] Some False by (auto simp: dropna_def split: prod.splits)
    qed
  qed
qed

lemma factorize_labels: "snd (factorize vs) = unique (dropna vs)"
  by (simp add: factorize_def unique_def factorize_from_labels)

lemma unique_from_append:
  "unique_from seen (xs @ ys) = unique_from (unique_from seen xs) ys"
  by (induction xs arbitrary: seen) simp_all

lemma unique_from_extends: "\<exists>ws. unique_from seen vs = seen @ ws"
proof (induction vs arbitrary: seen)
  case Nil
  show ?case by simp
next
  case (Cons v vs)
  show ?case
  proof (cases "v \<in> set seen")
    case True
    then show ?thesis using Cons[of seen] by simp
  next
    case False
    from Cons[of "seen @ [v]"] obtain ws where "unique_from (seen @ [v]) vs = (seen @ [v]) @ ws"
      by blast
    then show ?thesis using False by simp
  qed
qed

lemma length_unique: "length (unique vs) = length (remdups vs)"
  using distinct_card[OF distinct_unique[of vs]]
  by (simp add: set_unique length_remdups_card_conv)

lemma unique_nth_first_seen:
  assumes "v \<in> set vs" and "v \<noteq> Null"
  shows "first_seen_rank vs v < length (unique (dropna vs)) \<and>
         unique (dropna vs) ! first_seen_rank vs v = v"
proof -
  let ?before = "takeWhile (\<lambda>u. u \<noteq> v) vs"
  from assms(1) obtain rest where vs: "vs = ?before @ v # rest"
    by (metis (mono_tags, lifting) dropWhile_eq_Cons_conv takeWhile_dropWhile_id
        dropWhile_eq_Nil_conv list.exhaust)
  have nv: "v \<notin> set (dropna ?before)"
    by (auto simp: dropna_def dest: set_takeWhileD)
  have "dropna vs = dropna ?before @ v # dropna rest"
    by (subst vs) (simp add: dropna_def assms(2))
  then have "unique (dropna vs) =
             unique_from (unique_from (unique (dropna ?before)) [v]) (dropna rest)"
    by (simp add: unique_def unique_from_append)
  also have "\<dots> = unique_from (unique (dropna ?before) @ [v]) (dropna rest)"
    using nv by (simp add: set_unique)
  finally obtain ws where u: "unique (dropna vs) = (unique (dropna ?before) @ [v]) @ ws"
    using unique_from_extends[of "unique (dropna ?before) @ [v]" "dropna rest"] by auto
  have r: "first_seen_rank vs v = length (unique (dropna ?before))"
    by (simp add: first_seen_rank_def length_unique)
  show ?thesis unfolding u r by (simp add: nth_append)
qed

lemma factorize_first_seen:
  assumes "i < length vs"
  shows "Num (of_int (fst (factorize vs) ! i)) = first_seen_code vs (vs ! i)"
proof -
  obtain cs us where f: "factorize_from [] vs = (cs, us)" by (cases "factorize_from [] vs")
  have us: "us = unique (dropna vs)" using factorize_labels[of vs] f by (simp add: factorize_def)
  have d: "distinct us" using factorize_from_distinct[OF f] by simp
  show ?thesis
  proof (cases "vs ! i = Null")
    case True
    then show ?thesis
      using factorize_from_codes[OF f assms] f by (simp add: factorize_def first_seen_code_def)
  next
    case False
    from factorize_from_codes[OF f assms] False
    have c: "0 \<le> cs ! i" "nat (cs ! i) < length us" "us ! nat (cs ! i) = vs ! i" by auto
    have "vs ! i \<in> set vs" using assms by simp
    from unique_nth_first_seen[OF this False]
    have r: "first_seen_rank vs (vs ! i) < length us" "us ! first_seen_rank vs (vs ! i) = vs ! i"
      by (simp_all add: us)
    have "nat (cs ! i) = first_seen_rank vs (vs ! i)"
      using nth_eq_iff_index_eq[OF d c(2) r(1)] c(3) r(2) by simp
    then have "cs ! i = int (first_seen_rank vs (vs ! i))" using c(1) by linarith
    then show ?thesis using False f by (simp add: factorize_def first_seen_code_def)
  qed
qed

lemma encode_col_first_seen:
  "encode_col c = \<lparr>dtype = Int64, vals = map (first_seen_code (vals c)) (vals c)\<rparr>"
proof -
  obtain cs us where f: "factorize_from [] (vals c) = (cs, us)"
    by (cases "factorize_from [] (vals c)")
  have l: "length (fst (factorize (vals c))) = length (vals c)"
    using factorize_from_length[OF f] f by (simp add: factorize_def)
  have "map (\<lambda>k. Num (of_int k)) (fst (factorize (vals c))) =
        map (first_seen_code (vals c)) (vals c)"
    by (rule nth_equalityI) (simp_all add: l factorize_first_seen)
  then show ?thesis by (simp add: encode_col_def codes_column_def)
qed

text \<open>
  Claim C9. No stage but the Encoder changes the dataset: after the Connector, the Loader,
  either profiler, the shape reporter, the hypothesis tester and the correlation reporter,
  whatever they print and whether they return or raise, the dataset is what it was. On a
  well-formed frame the Encoder returns the dataset it has changed; the frame has the
  same rows and the same column names in the same order; a column of storage type
  \<open>Object\<close> or \<open>Category\<close> has become an integer column that holds, row by row, the code of
  the value that stood there: the number of distinct non-null values that appear in the
  column before the first appearance of that value, and \<open>-1\<close> for a null. Every other
  column is what it was.
\<close>

theorem encoder_is_the_only_writer:
  "ds (snd (connect_to_db lib host port user password database s)) = ds s \<and>
   ds (snd (load_data lib engine query s)) = ds s \<and>
   ds (snd (exploratory_analysis_numeric lib columns s)) = ds s \<and>
   ds (snd (exploratory_analysis_categorical columns s)) = ds s \<and>
   ds (snd (analyze_dataset s)) = ds s \<and>
   ds (snd (test_hypotheses lib s)) = ds s \<and>
   ds (snd (correlation_table lib target s)) = ds s \<and>
   (wf_df (ds s) \<longrightarrow>
      (\<exists>s'. encode_categorical_variables s = (Return (ds s'), s') \<and>
            nrows (ds s') = nrows (ds s) \<and>
            map fst (cols (ds s')) = map fst (cols (ds s)) \<and>
            (\<forall>n c. map_of (cols (ds s)) n = Some c \<longrightarrow>
               map_of (cols (ds s')) n =
                 Some (if dtype c = Object \<or> dtype c = Category
                       then \<lparr>dtype = Int64, vals = map (first_seen_code (vals c)) (vals c)\<rparr>
                       else c))))"
proof -
  have enc: "wf_df (ds s) \<longrightarrow>
      (\<exists>s'. encode_categorical_variables s = (Return (ds s'), s') \<and>
            nrows (ds s') = nrows (ds s) \<and>
            map fst (cols (ds s')) = map fst (cols (ds s)) \<and>
            (\<forall>n c. map_of (cols (ds s)) n = Some c \<longrightarrow>
               map_of (cols (ds s')) n =
                 Some (if dtype c = Object \<or> dtype c = Category
                       then \<lparr>dtype = Int64, vals = map (first_seen_code (vals c)) (vals c)\<rparr>
                       else c)))"
  proof
    assume "wf_df (ds s)"
    from encoder_effect[OF this] obtain s' where
      s': "encode_categorical_variables s = (Return (ds s'), s')"
          "nrows (ds s') = nrows (ds s)"
          "map fst (cols (ds s')) = map fst (cols (ds s))"
          "\<forall>n. map_of (cols (ds s')) n =
                  map_option (\<lambda>c. if dtype c = Object \<or> dtype c = Category then encode_col c else c)
                    (map_of (cols (ds s)) n)"
      by blast
    have "\<forall>n c. map_of (cols (ds s)) n = Some c \<longrightarrow>
               map_of (cols (ds s')) n =
                 Some (if dtype c = Object \<or> dtype c = Category
                       then \<lparr>dtype = Int64, vals = map (first_seen_code (vals c)) (vals c)\<rparr>
                       else c)"
      using s'(4) by (simp add: encode_col_first_seen)
    with s'(1,2,3) show "\<exists>s'. encode_categorical_variables s = (Return (ds s'), s') \<and>
            nrows (ds s') = nrows (ds s) \<and>
            map fst (cols (ds s')) = map fst (cols (ds s)) \<and>
            (\<forall>n c. map_of (cols (ds s)) n = Some c \<longrightarrow>
               map_of (cols (ds s')) n =
                 Some (if dtype c = Object \<or> dtype c = Category
                       then \<lparr>dtype = Int64, vals = map (first_seen_code (vals c)) (vals c)\<rparr>
                       else c))"
      by blast
  qed
  show ?thesis
    using enc
    by (simp add: uniform_ds uniform_connect_to_db uniform_load_data uniform_exploratory_numeric
        uniform_exploratory_categorical uniform_analyze_dataset uniform_test_hypotheses
        uniform_correlation_table)
qed

text \<open>The theorem on a frame whose land use repeats its second value before its first:
  the codes the Encoder writes are those of the first appearances.\<close>

theorem encoder_is_the_only_writer_witness:
  "wf_df repeat_frame \<and>
   encode_categorical_variables \<lparr>out = [], ds = repeat_frame\<rparr> =
     (Return \<lparr>nrows = 5, cols =
        [(''landuse'', \<lparr>dtype = Int64, vals = [Num 0, Num (- 1), Num 1, Num 1, Num 0]\<rparr>),
         (''saleprice'', \<lparr>dtype = Int64, vals = [Num 100, Num 110, Null, Num 210, Num 90]\<rparr>)]\<rparr>,
      \<lparr>out = [EncHeader ''landuse'', EncHead [Num 0, Num (- 1), Num 1, Num 1, Num 0],
              EncCategories [Str ''B'', Str ''A'']],
       ds = \<lparr>nrows = 5, cols =
        [(''landuse'', \<lparr>dtype = Int64, vals = [Num 0, Num (- 1), Num 1, Num 1, Num 0]\<rparr>),
         (''saleprice'', \<lparr>dtype = Int64, vals = [Num 100, Num 110, Null, Num 210, Num 90]\<rparr>)]\<rparr>\<rparr>) \<and>
   map (first_seen_code [Str ''B'', Null, Str ''A'', Str ''A'', Str ''B''])
       [Str ''B'', Null, Str ''A'', Str ''A'', Str ''B''] =
     [Num 0, Num (- 1), Num 1, Num 1, Num 0]"
proof -
  have w: "wf_df (ds \<lparr>out = [], ds = repeat_frame\<rparr>)"
    by (simp add: wf_df_def repeat_frame_def)
  have run: "encode_categorical_variables \<lparr>out = [], ds = repeat_frame\<rparr> =
     (Return \<lparr>nrows = 5, cols =
        [(''landuse'', \<lparr>dtype = Int64, vals = [Num 0, Num (- 1), Num 1, Num 1, Num 0]\<rparr>),
         (''saleprice'', \<lparr>dtype = Int64, vals = [Num 100, Num 110, Null, Num 210, Num 90]\<rparr>)]\<rparr>,
      \<lparr>out = [EncHeader ''landuse'', EncHead [Num 0, Num (- 1), Num 1, Num 1, Num 0],
              EncCategories [Str ''B'', Str ''A'']],
       ds = \<lparr>nrows = 5, cols =
        [(''landuse'', \<lparr>dtype = Int64, vals = [Num 0, Num (- 1), Num 1, Num 1, Num 0]\<rparr>),
         (''saleprice'', \<lparr>dtype = Int64, vals = [Num 100, Num 110, Null, Num 210, Num 90]\<rparr>)]\<rparr>\<rparr>)"
    by code_simp
  have c: "map (first_seen_code [Str ''B'', Null, Str ''A'', Str ''A'', Str ''B''])
       [Str ''B'', Null, Str ''A'', Str ''A'', Str ''B''] =
     [Num 0, Num (- 1), Num 1, Num 1, Num 0]"
    by code_simp
  from encoder_is_the_only_writer[where s = "\<lparr>out = [], ds = repeat_frame\<rparr>"] w
  obtain s' where s': "encode_categorical_variables \<lparr>out = [], ds = repeat_frame\<rparr> = (Return (ds s'), s')"
    and m: "\<forall>n c. map_of (cols (ds \<lparr>out = [], ds = repeat_frame\<rparr>)) n = Some c \<longrightarrow>
               map_of (cols (ds s')) n =
                 Some (if dtype c = Object \<or> dtype c = Category
                       then \<lparr>dtype = Int64, vals = map (first_seen_code (vals c)) (vals c)\<rparr>
                       else c)"
    by blast
  have "map_of (cols (ds s')) ''landuse'' =
          Some \<lparr>dtype = Int64, vals = map (first_seen_code [Str ''B'', Null, Str ''A'', Str ''A'', Str ''B''])
                  [Str ''B'', Null, Str ''A'', Str ''A'', Str ''B'']\<rparr>"
    using m[rule_format, of "''landuse''"] by (simp add: repeat_frame_def)
  with s' run have "Some \<lparr>dtype = Int64, vals = [Num 0, Num (- 1), Num 1, Num 1, Num 0]\<rparr> =
          Some \<lparr>dtype = Int64, vals = map (first_seen_code [Str ''B'', Null, Str ''A'', Str ''A'', Str ''B''])
                  [Str ''B'', Null, Str ''A'', Str ''A'', Str ''B'']\<rparr>"
    by auto
  with w run c show ?thesis by simp
qed

subsection \<open>Connector and Loader\<close>

text \<open>
  Claim C3. When creating the engine fails with an exception \<open>e\<close>, the Connector does not
  return: it raises, and so does the script, with nothing printed after the failure and
  the dataset untouched. When \<open>e\<close> is of the class \<^verbatim>\<open>Exception\<close> the failure is logged
  and the exception raised is \<^verbatim>\<open>SystemExit\<close>, which ends the process. The same holds of
  the Loader when the query fails; the script then has printed the connection's success
  and the query's failure, and no line of a later stage.
\<close>

theorem connector_loader_fatal:
  "(create_engine lib (db_url host port user password database) = Inl e \<longrightarrow>
      (\<exists>ex s'. connect_to_db lib host port user password database s = (Raise ex, s') \<and>
               main lib host port user password database query s = (Raise ex, s') \<and>
               ds s' = ds s \<and>
               ex = (if is_Exception e then SystemExit else e) \<and>
               out s' = out s @ (if is_Exception e then [ConnectError e] else []))) \<and>
   (read_sql_query lib query engine = Inl e \<longrightarrow>
      (\<exists>ex s'. load_data lib engine query s = (Raise ex, s') \<and>
               ds s' = ds s \<and>
               ex = (if is_Exception e then SystemExit else e) \<and>
               out s' = out s @ (if is_Exception e then [QueryError e] else []))) \<and>
   (create_engine lib (db_url host port user password database) = Inr engine \<and>
    read_sql_query lib query engine = Inl e \<longrightarrow>
      (\<exists>ex s'. main lib host port user password database query s = (Raise ex, s') \<and>
               ds s' = ds s \<and>
               ex = (if is_Exception e then SystemExit else e) \<and>
               out s' = out s @ ConnectOK # (if is_Exception e then [QueryError e] else [])))"
  by (simp add: connect_to_db_def load_data_def main_def try_except_def bind_p_def
      print_p_def unit_p_def raise_p_def)

text \<open>The theorem on a refused connection and on a failing query.\<close>

theorem connector_loader_fatal_witness:
  "main lib_refusing ''db.example'' 5432 ''u'' ''p'' ''d'' ''q'' empty_world =
     (Raise SystemExit,
      empty_world\<lparr>out := [ConnectError (OperationalError ''connection refused'')]\<rparr>) \<and>
   main lib_no_table ''db.example'' 5432 ''u'' ''p'' ''d'' ''q'' empty_world =
     (Raise SystemExit,
      empty_world\<lparr>out := [ConnectOK, QueryError (OperationalError ''no such table'')]\<rparr>)"
proof -
  from connector_loader_fatal[where lib = lib_refusing and host = "''db.example''"
      and port = 5432 and user = "''u''" and password = "''p''" and database = "''d''"
      and query = "''q''" and s = empty_world
      and e = "OperationalError ''connection refused''"]
  have a: "main lib_refusing ''db.example'' 5432 ''u'' ''p'' ''d'' ''q'' empty_world =
     (Raise SystemExit,
      empty_world\<lparr>out := [ConnectError (OperationalError ''connection refused'')]\<rparr>)"
    by (auto simp: lib_refusing_def lib_up_def empty_world_def)
  from connector_loader_fatal[where lib = lib_no_table and host = "''db.example''"
      and port = 5432 and user = "''u''" and password = "''p''" and database = "''d''"
      and query = "''q''" and s = empty_world
      and engine = "Engine (db_url ''db.example'' 5432 ''u'' ''p'' ''d'')"
      and e = "OperationalError ''no such table''"]
  have b: "main lib_no_table ''db.example'' 5432 ''u'' ''p'' ''d'' ''q'' empty_world =
     (Raise SystemExit,
      empty_world\<lparr>out := [ConnectOK, QueryError (OperationalError ''no such table'')]\<rparr>)"
    by (auto simp: lib_no_table_def lib_up_def empty_world_def)
  from a b show ?thesis by simp
qed

subsection \<open>The hypothesis tests\<close>














section \<open>Properties of the numeric profile\<close>



















section \<open>Properties of the correlation table\<close>















end
